theory Spec2Isabelle
  imports Main "HOL-Library.Word"
begin

section \<open>Machine types and byte-addressed memory\<close>

text \<open>
  The library is written for an LP64 target: \<open>unsigned long\<close>, \<open>intptr_t\<close>, \<open>off_t\<close>,
  \<open>int64_t\<close> and \<open>size_t\<close> are 64-bit words, and \<open>sizeof(intptr_t)\<close> is 8. A C \<open>int\<close>
  that only carries a status or a CPU number is an \<open>int\<close>. Memory is a partial map from
  addresses to bytes; an address that is not mapped faults when it is touched.
\<close>

type_synonym addr = "64 word"
type_synonym intptr = "64 word"
type_synonym byte = "8 word"
type_synonym memory = "addr \<Rightarrow> byte option"

primrec load_bytes :: "memory \<Rightarrow> addr \<Rightarrow> nat \<Rightarrow> byte list option" where
  "load_bytes m a 0 = Some []"
| "load_bytes m a (Suc k) =
     (case m a of
        None \<Rightarrow> None
      | Some x \<Rightarrow> (case load_bytes m (a + 1) k of None \<Rightarrow> None | Some xs \<Rightarrow> Some (x # xs)))"

primrec write_bytes :: "memory \<Rightarrow> addr \<Rightarrow> byte list \<Rightarrow> memory" where
  "write_bytes m a [] = m"
| "write_bytes m a (x # xs) = write_bytes (m(a \<mapsto> x)) (a + 1) xs"

text \<open>A store touches every byte of its destination; it faults, writing nothing, unless all
  of them are mapped.\<close>

definition store_bytes :: "memory \<Rightarrow> addr \<Rightarrow> byte list \<Rightarrow> memory option" where
  "store_bytes m a xs =
     (case load_bytes m a (length xs) of None \<Rightarrow> None | Some _ \<Rightarrow> Some (write_bytes m a xs))"

text \<open>The set of addresses of the \<open>k\<close> bytes at \<open>a\<close> (addresses wrap around at \<open>2^64\<close>).\<close>

definition region :: "addr \<Rightarrow> nat \<Rightarrow> addr set" where
  "region a k = (\<lambda>i. a + of_nat i) ` {..<k}"

text \<open>Little-endian values, as the target stores them.\<close>

primrec le_val :: "byte list \<Rightarrow> nat" where
  "le_val [] = 0"
| "le_val (x # xs) = unat x + 256 * le_val xs"

primrec le_bytes :: "nat \<Rightarrow> nat \<Rightarrow> byte list" where
  "le_bytes 0 k = []"
| "le_bytes (Suc j) k = of_nat (k mod 256) # le_bytes j (k div 256)"

definition sizeof_intptr :: nat where
  "sizeof_intptr = 8"

definition intptr_bytes :: "intptr \<Rightarrow> byte list" where
  "intptr_bytes x = le_bytes sizeof_intptr (unat x)"

definition intptr_of_bytes :: "byte list \<Rightarrow> intptr" where
  "intptr_of_bytes xs = of_nat (le_val xs)"

definition read_intptr :: "memory \<Rightarrow> addr \<Rightarrow> intptr option" where
  "read_intptr m a = map_option intptr_of_bytes (load_bytes m a sizeof_intptr)"

definition store_intptr :: "memory \<Rightarrow> addr \<Rightarrow> intptr \<Rightarrow> memory option" where
  "store_intptr m a x = store_bytes m a (intptr_bytes x)"

section \<open>Operation records (\<open>struct cpu_op\<close>)\<close>

text \<open>
  The header \<open>rseq/cpu-op.h\<close> that declares \<open>struct cpu_op\<close>, \<open>enum cpu_op_type\<close> and the
  flag \<open>CPU_OP_NR_FLAG\<close> is not among the sources. The types below are read off the
  designated initialisers in \<open>cpu-op.c\<close>: a discriminant \<open>op\<close>, a byte length \<open>len\<close> and a
  union \<open>u\<close> with one member per operand set. The width of the \<open>len\<close> field is fixed by the
  absent header, so the length is kept as the number the encoder stores.

  An operand is an address cast to \<open>unsigned long\<close>. The encoders pass two kinds: a pointer
  received from the caller, or the address of one of their own by-value \<open>intptr_t\<close>
  parameters (\<open>&expect\<close>, \<open>&newv\<close>, ...). C does not fix the numeric address of a parameter
  object and it is distinct from every object the caller can name, so the second kind is
  kept symbolic: \<open>Address_of_local x\<close> is the address of a parameter object holding \<open>x\<close>.
\<close>

datatype cpu_op_type =
    CPU_COMPARE_EQ_OP
  | CPU_MEMCPY_OP
  | CPU_MEMCPY_RELEASE_OP
  | CPU_ADD_OP
  | CPU_ADD_RELEASE_OP

datatype operand = Address addr | Address_of_local intptr

text \<open>Members of the union, fields in the order of the initialisers:
  \<open>compare_op {a, b, expect_fault_a, expect_fault_b}\<close>,
  \<open>memcpy_op {dst, src, expect_fault_dst, expect_fault_src}\<close>,
  \<open>arithmetic_op {p, count, expect_fault_p}\<close>. An \<open>expect_fault\<close> flag is 0 or 1.\<close>

datatype cpu_op_u =
    compare_op operand operand bool bool
  | memcpy_op operand operand bool bool
  | arithmetic_op operand "64 word" bool

record cpu_op =
  op :: cpu_op_type
  len :: nat
  u :: cpu_op_u

datatype cpu_op_flag = CPU_OP_NR_FLAG

text \<open>The arguments of one \<open>cpu_opv\<close> system call.\<close>

record request =
  req_opv :: "cpu_op list"
  req_cnt :: int
  req_cpu :: int
  req_flags :: "cpu_op_flag set"

section \<open>The pinned-execution substrate\<close>

text \<open>
  The substrate is the \<open>cpu_opv\<close> system call of the operating system; \<open>cpu-op.c\<close> only
  calls it. Its behaviour is taken from the specification, sections 3, 4.3, 6 and 7.
\<close>

text \<open>Modelled from the spec: the closed outcome taxonomy of section 3 (the implementation
  of the system call is missing). A fault names the index of the operation in the vector
  and the role of the operand that faulted.\<close>

datatype operand_role = Role_a | Role_b | Role_dst | Role_src | Role_p

datatype ExecutionOutcome =
    Success
  | ComparisonMismatch
  | RecoverableFault nat operand_role
  | UnexpectedFault nat operand_role
  | SubstrateUnavailable
  | ConfigurationError

text \<open>
  Other agents run concurrently with the caller. One step of interference is a list of
  cells they overwrite (\<open>Some x\<close>) or unmap (\<open>None\<close>). The process state holds the memory,
  the interference still to come, the system calls issued so far with the outcome of
  each, and what the operating system would answer: the raw status it gives to a probe
  for the substrate, the maximum vector length, the number of CPUs and the result of
  \<open>sched_getcpu()\<close>.
\<close>

type_synonym interference = "(addr \<times> byte option) list"

record world =
  mem :: memory
  agents :: "interference list"
  dispatched :: "(request \<times> ExecutionOutcome) list"
  probe_status :: int
  vec_len_max :: nat
  nr_cpus :: nat
  sched_getcpu :: int

text \<open>Modelled from the spec: the substrate is present exactly when the system call answers
  a probe with a status that is not negative (sections 4.3 and 6). Which number that is, and
  which negative number is the error, is the system's affair.\<close>

definition available :: "world \<Rightarrow> bool" where
  "available w \<longleftrightarrow> 0 \<le> probe_status w"

definition interfere :: "interference \<Rightarrow> memory \<Rightarrow> memory" where
  "interfere xs m = fold (\<lambda>(a, x) m'. m'(a := x)) xs m"

text \<open>The other agents take their next step, if they have one left.\<close>

definition other_agents :: "world \<Rightarrow> world" where
  "other_agents w =
     (case agents w of
        [] \<Rightarrow> w
      | i # rest \<Rightarrow> w\<lparr>mem := interfere i (mem w), agents := rest\<rparr>)"

text \<open>Modelled from the spec: how the missing system call reads and writes an operand of
  \<open>k\<close> bytes. A parameter object of an encoder holds one \<open>intptr_t\<close>; it dies with the call, so
  a write to it is not visible to the caller.\<close>

definition read_operand :: "memory \<Rightarrow> operand \<Rightarrow> nat \<Rightarrow> byte list option" where
  "read_operand m x k =
     (case x of
        Address a \<Rightarrow> load_bytes m a k
      | Address_of_local y \<Rightarrow> if k \<le> sizeof_intptr then Some (take k (intptr_bytes y)) else None)"

definition write_operand :: "memory \<Rightarrow> operand \<Rightarrow> byte list \<Rightarrow> memory option" where
  "write_operand m x xs =
     (case x of
        Address a \<Rightarrow> store_bytes m a xs
      | Address_of_local y \<Rightarrow> if length xs \<le> sizeof_intptr then Some m else None)"

text \<open>Modelled from the spec: the missing system call classifies a fault by the operand's
  \<open>expect_fault\<close> flag (section 4.3): recoverable when the flag is set, unexpected otherwise.\<close>

definition fault_outcome :: "bool \<Rightarrow> nat \<Rightarrow> operand_role \<Rightarrow> ExecutionOutcome" where
  "fault_outcome expected i r = (if expected then RecoverableFault i r else UnexpectedFault i r)"

text \<open>Modelled from the spec: the missing system call's compare operation. It succeeds when
  the \<open>k\<close> bytes at both operands are equal and writes nothing.\<close>

definition exec_compare ::
  "memory \<Rightarrow> nat \<Rightarrow> nat \<Rightarrow> operand \<Rightarrow> operand \<Rightarrow> bool \<Rightarrow> bool \<Rightarrow> ExecutionOutcome \<times> memory" where
  "exec_compare m i k x y fx fy =
     (case read_operand m x k of
        None \<Rightarrow> (fault_outcome fx i Role_a, m)
      | Some xs \<Rightarrow>
          (case read_operand m y k of
             None \<Rightarrow> (fault_outcome fy i Role_b, m)
           | Some ys \<Rightarrow> (if xs = ys then Success else ComparisonMismatch, m)))"

text \<open>Modelled from the spec: the missing system call's copy operation (plain and release
  variant have the same effect on memory; the release ordering is not visible in a
  sequential state).\<close>

definition exec_memcpy ::
  "memory \<Rightarrow> nat \<Rightarrow> nat \<Rightarrow> operand \<Rightarrow> operand \<Rightarrow> bool \<Rightarrow> bool \<Rightarrow> ExecutionOutcome \<times> memory" where
  "exec_memcpy m i k d s fd fs =
     (case read_operand m s k of
        None \<Rightarrow> (fault_outcome fs i Role_src, m)
      | Some xs \<Rightarrow>
          (case write_operand m d xs of
             None \<Rightarrow> (fault_outcome fd i Role_dst, m)
           | Some m' \<Rightarrow> (Success, m')))"

text \<open>Modelled from the spec: the missing system call's add operation, on a little-endian
  operand of \<open>k\<close> bytes, wrapping.\<close>

definition exec_add ::
  "memory \<Rightarrow> nat \<Rightarrow> nat \<Rightarrow> operand \<Rightarrow> 64 word \<Rightarrow> bool \<Rightarrow> ExecutionOutcome \<times> memory" where
  "exec_add m i k x c fx =
     (case read_operand m x k of
        None \<Rightarrow> (fault_outcome fx i Role_p, m)
      | Some xs \<Rightarrow>
          (case write_operand m x (le_bytes k (nat ((int (le_val xs) + sint c) mod 256 ^ k))) of
             None \<Rightarrow> (fault_outcome fx i Role_p, m)
           | Some m' \<Rightarrow> (Success, m')))"

text \<open>Modelled from the spec: the missing system call dispatches on the discriminant; a
  discriminant that does not fit the member of the union is a configuration error.\<close>

definition exec_op :: "memory \<Rightarrow> nat \<Rightarrow> cpu_op \<Rightarrow> ExecutionOutcome \<times> memory" where
  "exec_op m i c =
     (case u c of
        compare_op x y fx fy \<Rightarrow>
          if op c = CPU_COMPARE_EQ_OP then exec_compare m i (len c) x y fx fy
          else (ConfigurationError, m)
      | memcpy_op d s fd fs \<Rightarrow>
          if op c = CPU_MEMCPY_OP \<or> op c = CPU_MEMCPY_RELEASE_OP
          then exec_memcpy m i (len c) d s fd fs
          else (ConfigurationError, m)
      | arithmetic_op x n fx \<Rightarrow>
          if op c = CPU_ADD_OP \<or> op c = CPU_ADD_RELEASE_OP then exec_add m i (len c) x n fx
          else (ConfigurationError, m))"

text \<open>Modelled from the spec: the missing system call applies the operations strictly in
  order; the first one that does not succeed aborts all later ones (section 3). The
  effects of the operations before it stay (section 4.3).\<close>

fun exec_vec :: "memory \<Rightarrow> nat \<Rightarrow> cpu_op list \<Rightarrow> ExecutionOutcome \<times> memory" where
  "exec_vec m i [] = (Success, m)"
| "exec_vec m i (c # cs) =
     (case exec_op m i c of
        (out, m') \<Rightarrow> if out = Success then exec_vec m' (Suc i) cs else (out, m'))"

text \<open>Modelled from the spec: the missing system call itself. An absent substrate fails every
  request; a count beyond the maximum (or negative) and, for a pinned request, a CPU
  number that does not exist are configuration errors, raised before any operation runs
  (sections 4.3 and 7). With \<open>CPU_OP_NR_FLAG\<close> the request is not pinned. The substrate
  reads \<open>req_cnt\<close> records of the array (every encoder passes the size of its array).\<close>

definition substrate_dispatch :: "world \<Rightarrow> request \<Rightarrow> ExecutionOutcome \<times> memory" where
  "substrate_dispatch w r =
     (if \<not> available w then (SubstrateUnavailable, mem w)
      else if req_cnt r < 0 \<or> int (vec_len_max w) < req_cnt r then (ConfigurationError, mem w)
      else if CPU_OP_NR_FLAG \<notin> req_flags r \<and> (req_cpu r < 0 \<or> int (nr_cpus w) \<le> req_cpu r)
        then (ConfigurationError, mem w)
      else exec_vec (mem w) 0 (take (nat (req_cnt r)) (req_opv r)))"

text \<open>Modelled from the spec: the raw status of the missing system call. Section 6 makes it
  non-negative on success and negative on failure. The retry loop of
  \<open>cpu_op_cmpnev_storeoffp_load\<close> restarts exactly on a positive status, which section 4.4
  names ComparisonMismatch, so a failed comparison is the positive status.\<close>

fun raw_result :: "ExecutionOutcome \<Rightarrow> int" where
  "raw_result Success = 0"
| "raw_result ComparisonMismatch = 1"
| "raw_result _ = - 1"

text \<open>Modelled from the spec: a request with \<open>CPU_OP_NR_FLAG\<close> is a probe of the missing
  system call. When the substrate is absent, or when it is present and the probe goes
  through, the raw status is the system's answer to a probe, whatever number that is
  (section 6: not negative for a present substrate, an error otherwise). Every other
  request has the status of its outcome.\<close>

definition raw_status :: "world \<Rightarrow> request \<Rightarrow> ExecutionOutcome \<Rightarrow> int" where
  "raw_status w r out =
     (if CPU_OP_NR_FLAG \<in> req_flags r \<and> (out = Success \<or> out = SubstrateUnavailable)
      then probe_status w
      else raw_result out)"


section \<open>The functions of \<open>cpu-op.c\<close>\<close>

text \<open>
  \<open>cpu_opv\<close> is the system call and nothing else: it checks nothing, hands its four
  arguments to the substrate and returns the substrate's raw status. The model records the
  call in \<open>dispatched\<close>.
\<close>

definition cpu_opv ::
  "world \<Rightarrow> cpu_op list \<Rightarrow> int \<Rightarrow> int \<Rightarrow> cpu_op_flag set \<Rightarrow> int \<times> world" where
  "cpu_opv w opv cpuopcnt cpu flags =
     (let r = \<lparr>req_opv = opv, req_cnt = cpuopcnt, req_cpu = cpu, req_flags = flags\<rparr>
      in case substrate_dispatch w r of
           (out, m') \<Rightarrow>
             (raw_status w r out, w\<lparr>mem := m', dispatched := dispatched w @ [(r, out)]\<rparr>))"

definition ARRAY_SIZE :: "cpu_op list \<Rightarrow> int" where
  "ARRAY_SIZE arr = int (length arr)"

text \<open>The probe passes \<open>NULL\<close> and a count of 0: an empty array.\<close>

definition cpu_op_available :: "world \<Rightarrow> int \<times> world" where
  "cpu_op_available w =
     (case cpu_opv w [] 0 0 {CPU_OP_NR_FLAG} of
        (rc, w') \<Rightarrow> if rc \<ge> 0 then (1, w') else (0, w'))"

datatype signal = SIGABRT | SIGSEGV

definition cpu_op_get_current_cpu :: "world \<Rightarrow> signal + int" where
  "cpu_op_get_current_cpu w =
     (let cpu = sched_getcpu w
      in if cpu < 0 then Inl SIGABRT else Inr cpu)"

definition cpu_op_cmpxchg ::
  "world \<Rightarrow> addr \<Rightarrow> addr \<Rightarrow> addr \<Rightarrow> addr \<Rightarrow> 64 word \<Rightarrow> int \<Rightarrow> int \<times> world" where
  "cpu_op_cmpxchg w v expect old n len' cpu =
     (let opvec =
        [ \<lparr>op = CPU_MEMCPY_OP, len = unat len',
            u = memcpy_op (Address old) (Address v) False False\<rparr>,
          \<lparr>op = CPU_COMPARE_EQ_OP, len = unat len',
            u = compare_op (Address v) (Address expect) False False\<rparr>,
          \<lparr>op = CPU_MEMCPY_OP, len = unat len',
            u = memcpy_op (Address v) (Address n) False False\<rparr> ]
      in cpu_opv w opvec (ARRAY_SIZE opvec) cpu {})"

definition cpu_op_add :: "world \<Rightarrow> addr \<Rightarrow> 64 word \<Rightarrow> 64 word \<Rightarrow> int \<Rightarrow> int \<times> world" where
  "cpu_op_add w v count len' cpu =
     (let opvec =
        [ \<lparr>op = CPU_ADD_OP, len = unat len', u = arithmetic_op (Address v) count False\<rparr> ]
      in cpu_opv w opvec (ARRAY_SIZE opvec) cpu {})"

definition cpu_op_add_release ::
  "world \<Rightarrow> addr \<Rightarrow> 64 word \<Rightarrow> 64 word \<Rightarrow> int \<Rightarrow> int \<times> world" where
  "cpu_op_add_release w v count len' cpu =
     (let opvec =
        [ \<lparr>op = CPU_ADD_RELEASE_OP, len = unat len',
            u = arithmetic_op (Address v) count False\<rparr> ]
      in cpu_opv w opvec (ARRAY_SIZE opvec) cpu {})"

definition cpu_op_cmpeqv_storev ::
  "world \<Rightarrow> addr \<Rightarrow> intptr \<Rightarrow> intptr \<Rightarrow> int \<Rightarrow> int \<times> world" where
  "cpu_op_cmpeqv_storev w v expect newv cpu =
     (let opvec =
        [ \<lparr>op = CPU_COMPARE_EQ_OP, len = sizeof_intptr,
            u = compare_op (Address v) (Address_of_local expect) False False\<rparr>,
          \<lparr>op = CPU_MEMCPY_OP, len = sizeof_intptr,
            u = memcpy_op (Address v) (Address_of_local newv) False False\<rparr> ]
      in cpu_opv w opvec (ARRAY_SIZE opvec) cpu {})"

definition cpu_op_cmpeqv_storep_expect_fault ::
  "world \<Rightarrow> addr \<Rightarrow> intptr \<Rightarrow> addr \<Rightarrow> int \<Rightarrow> int \<times> world" where
  "cpu_op_cmpeqv_storep_expect_fault w v expect newp cpu =
     (let opvec =
        [ \<lparr>op = CPU_COMPARE_EQ_OP, len = sizeof_intptr,
            u = compare_op (Address v) (Address_of_local expect) False False\<rparr>,
          \<lparr>op = CPU_MEMCPY_OP, len = sizeof_intptr,
            u = memcpy_op (Address v) (Address newp) False True\<rparr> ]
      in cpu_opv w opvec (ARRAY_SIZE opvec) cpu {})"

definition cpu_op_cmpeqv_storev_storev ::
  "world \<Rightarrow> addr \<Rightarrow> intptr \<Rightarrow> addr \<Rightarrow> intptr \<Rightarrow> intptr \<Rightarrow> int \<Rightarrow> int \<times> world" where
  "cpu_op_cmpeqv_storev_storev w v expect v2 newv2 newv cpu =
     (let opvec =
        [ \<lparr>op = CPU_COMPARE_EQ_OP, len = sizeof_intptr,
            u = compare_op (Address v) (Address_of_local expect) False False\<rparr>,
          \<lparr>op = CPU_MEMCPY_OP, len = sizeof_intptr,
            u = memcpy_op (Address v2) (Address_of_local newv2) False False\<rparr>,
          \<lparr>op = CPU_MEMCPY_OP, len = sizeof_intptr,
            u = memcpy_op (Address v) (Address_of_local newv) False False\<rparr> ]
      in cpu_opv w opvec (ARRAY_SIZE opvec) cpu {})"

definition cpu_op_cmpeqv_storev_mb_storev ::
  "world \<Rightarrow> addr \<Rightarrow> intptr \<Rightarrow> addr \<Rightarrow> intptr \<Rightarrow> intptr \<Rightarrow> int \<Rightarrow> int \<times> world" where
  "cpu_op_cmpeqv_storev_mb_storev w v expect v2 newv2 newv cpu =
     (let opvec =
        [ \<lparr>op = CPU_COMPARE_EQ_OP, len = sizeof_intptr,
            u = compare_op (Address v) (Address_of_local expect) False False\<rparr>,
          \<lparr>op = CPU_MEMCPY_OP, len = sizeof_intptr,
            u = memcpy_op (Address v2) (Address_of_local newv2) False False\<rparr>,
          \<lparr>op = CPU_MEMCPY_RELEASE_OP, len = sizeof_intptr,
            u = memcpy_op (Address v) (Address_of_local newv) False False\<rparr> ]
      in cpu_opv w opvec (ARRAY_SIZE opvec) cpu {})"

definition cpu_op_cmpeqv_cmpeqv_storev ::
  "world \<Rightarrow> addr \<Rightarrow> intptr \<Rightarrow> addr \<Rightarrow> intptr \<Rightarrow> intptr \<Rightarrow> int \<Rightarrow> int \<times> world" where
  "cpu_op_cmpeqv_cmpeqv_storev w v expect v2 expect2 newv cpu =
     (let opvec =
        [ \<lparr>op = CPU_COMPARE_EQ_OP, len = sizeof_intptr,
            u = compare_op (Address v) (Address_of_local expect) False False\<rparr>,
          \<lparr>op = CPU_COMPARE_EQ_OP, len = sizeof_intptr,
            u = compare_op (Address v2) (Address_of_local expect2) False False\<rparr>,
          \<lparr>op = CPU_MEMCPY_OP, len = sizeof_intptr,
            u = memcpy_op (Address v) (Address_of_local newv) False False\<rparr> ]
      in cpu_opv w opvec (ARRAY_SIZE opvec) cpu {})"

definition cpu_op_cmpeqv_memcpy_storev ::
  "world \<Rightarrow> addr \<Rightarrow> intptr \<Rightarrow> addr \<Rightarrow> addr \<Rightarrow> 64 word \<Rightarrow> intptr \<Rightarrow> int \<Rightarrow> int \<times> world" where
  "cpu_op_cmpeqv_memcpy_storev w v expect dst src len' newv cpu =
     (let opvec =
        [ \<lparr>op = CPU_COMPARE_EQ_OP, len = sizeof_intptr,
            u = compare_op (Address v) (Address_of_local expect) False False\<rparr>,
          \<lparr>op = CPU_MEMCPY_OP, len = unat len',
            u = memcpy_op (Address dst) (Address src) False False\<rparr>,
          \<lparr>op = CPU_MEMCPY_OP, len = sizeof_intptr,
            u = memcpy_op (Address v) (Address_of_local newv) False False\<rparr> ]
      in cpu_opv w opvec (ARRAY_SIZE opvec) cpu {})"

definition cpu_op_cmpeqv_memcpy_mb_storev ::
  "world \<Rightarrow> addr \<Rightarrow> intptr \<Rightarrow> addr \<Rightarrow> addr \<Rightarrow> 64 word \<Rightarrow> intptr \<Rightarrow> int \<Rightarrow> int \<times> world" where
  "cpu_op_cmpeqv_memcpy_mb_storev w v expect dst src len' newv cpu =
     (let opvec =
        [ \<lparr>op = CPU_COMPARE_EQ_OP, len = sizeof_intptr,
            u = compare_op (Address v) (Address_of_local expect) False False\<rparr>,
          \<lparr>op = CPU_MEMCPY_OP, len = unat len',
            u = memcpy_op (Address dst) (Address src) False False\<rparr>,
          \<lparr>op = CPU_MEMCPY_RELEASE_OP, len = sizeof_intptr,
            u = memcpy_op (Address v) (Address_of_local newv) False False\<rparr> ]
      in cpu_opv w opvec (ARRAY_SIZE opvec) cpu {})"

definition cpu_op_addv :: "world \<Rightarrow> addr \<Rightarrow> 64 word \<Rightarrow> int \<Rightarrow> int \<times> world" where
  "cpu_op_addv w v count cpu = cpu_op_add w v count (of_nat sizeof_intptr) cpu"


text \<open>
  The retry loop (lines 198-217). \<open>READ_ONCE(*v)\<close> and \<open>*load = oldv\<close> are plain accesses of
  the calling thread: on an unmapped address the process is killed by \<open>SIGSEGV\<close>. Between the
  read of \<open>*v\<close> and the execution of the vector the thread is not pinned, so this is where
  the other agents get to run; once the vector executes, nothing is interleaved with it.
  The loop has no bound of its own: it goes round again whenever the status is positive.
\<close>

function cpu_op_cmpnev_storeoffp_load ::
  "world \<Rightarrow> addr \<Rightarrow> intptr \<Rightarrow> 64 word \<Rightarrow> addr \<Rightarrow> int \<Rightarrow> (signal + int) \<times> world" where
  "cpu_op_cmpnev_storeoffp_load w v expectnot voffp load cpu =
     (case read_intptr (mem w) v of
        None \<Rightarrow> (Inl SIGSEGV, w)
      | Some oldv \<Rightarrow>
          (let newp = oldv + voffp
           in if oldv = expectnot then (Inr 1, w)
              else
                (case cpu_op_cmpeqv_storep_expect_fault (other_agents w) v oldv newp cpu of
                   (ret, w') \<Rightarrow>
                     if ret = 0 then
                       (case store_intptr (mem w') load oldv of
                          None \<Rightarrow> (Inl SIGSEGV, w')
                        | Some m' \<Rightarrow> (Inr 0, w'\<lparr>mem := m'\<rparr>))
                     else if ret > 0 then
                       cpu_op_cmpnev_storeoffp_load w' v expectnot voffp load cpu
                     else (Inr (- 1), w'))))"
  by pat_completeness auto

section \<open>Example states\<close>

text \<open>A memory with four one-byte cells and a machine with the substrate present: it answers
  a probe with 5.\<close>

definition example_mem :: memory where
  "example_mem =
     write_bytes (write_bytes (write_bytes (write_bytes Map.empty
       0x1000 [1]) 0x2000 [2]) 0x3000 [9]) 0x4000 [0]"

definition example_world :: world where
  "example_world =
     \<lparr>mem = example_mem, agents = [], dispatched = [], probe_status = 5,
      vec_len_max = 16, nr_cpus = 4, sched_getcpu = 0\<rparr>"

text \<open>A state in which \<open>sched_getcpu()\<close> fails, and one without the substrate: a probe is
  answered with the error status.\<close>

definition no_cpu_world :: world where
  "no_cpu_world = example_world\<lparr>sched_getcpu := - 1\<rparr>"

definition absent_world :: world where
  "absent_world = example_world\<lparr>probe_status := - 1\<rparr>"

text \<open>An operation to fill an over-long vector with.\<close>

definition example_op :: cpu_op where
  "example_op = \<lparr>op = CPU_ADD_OP, len = 1, u = arithmetic_op (Address 0x4000) 1 False\<rparr>"

text \<open>
  Per-CPU lists. The list head is the word at \<open>0x10\<close>, the out-parameter \<open>load\<close> is the word
  at \<open>0x30\<close>. In \<open>pop_world\<close> the head points to a node at \<open>0x20\<close> whose first word is \<open>0x50\<close>.
  In \<open>dangling_world\<close> the head points to \<open>0x60\<close>, which is not mapped. In \<open>contended_world\<close>
  another agent replaces the head by \<open>0x50\<close>, not mapped either, right after it was read.
  In \<open>empty_list_world\<close> the head is the sentinel 0.
\<close>

definition pop_world :: world where
  "pop_world = example_world
     \<lparr>mem := write_bytes (write_bytes (write_bytes Map.empty
         0x10 [0x20, 0, 0, 0, 0, 0, 0, 0]) 0x20 [0x50, 0, 0, 0, 0, 0, 0, 0])
         0x30 [0, 0, 0, 0, 0, 0, 0, 0]\<rparr>"

definition dangling_world :: world where
  "dangling_world = example_world
     \<lparr>mem := write_bytes (write_bytes Map.empty
         0x10 [0x60, 0, 0, 0, 0, 0, 0, 0]) 0x30 [0, 0, 0, 0, 0, 0, 0, 0]\<rparr>"

definition contended_world :: world where
  "contended_world = pop_world\<lparr>agents := [[(0x10, Some 0x50)]]\<rparr>"

definition empty_list_world :: world where
  "empty_list_world = example_world\<lparr>mem := write_bytes Map.empty 0x10 [0, 0, 0, 0, 0, 0, 0, 0]\<rparr>"

section \<open>Predicates of the specification\<close>

text \<open>The release variants of the operations (section 3).\<close>

definition release_variant :: "cpu_op_type \<Rightarrow> bool" where
  "release_variant t = (t = CPU_MEMCPY_RELEASE_OP \<or> t = CPU_ADD_RELEASE_OP)"

text \<open>
  The request of section 4.4, step 4, in the specification's words: a vector of two
  operations, Compare(watched location == value just read) and then
  Copy(watched location := *candidate address); the source operand of the copy is the only
  one marked as allowed to fault. It is pinned to \<open>cpu\<close> and carries no flag.
\<close>

definition retry_request :: "addr \<Rightarrow> intptr \<Rightarrow> addr \<Rightarrow> int \<Rightarrow> request" where
  "retry_request watched value_read candidate cpu =
     \<lparr>req_opv =
        [ \<lparr>op = CPU_COMPARE_EQ_OP, len = sizeof_intptr,
            u = compare_op (Address watched) (Address_of_local value_read) False False\<rparr>,
          \<lparr>op = CPU_MEMCPY_OP, len = sizeof_intptr,
            u = memcpy_op (Address watched) (Address candidate) False True\<rparr> ],
      req_cnt = 2, req_cpu = cpu, req_flags = {}\<rparr>"

text \<open>
  The memory after \<open>j\<close> steps of the other agents. A vector that does not succeed writes
  nothing, so this is the memory that iteration \<open>j\<close> of the retry loop (counted from 0)
  reads the watched location from.
\<close>

definition memory_after :: "nat \<Rightarrow> world \<Rightarrow> memory" where
  "memory_after j w = fold interfere (take j (agents w)) (mem w)"

text \<open>
  \<open>only_agents w w'\<close>: from \<open>w\<close> to \<open>w'\<close> the memory has changed by steps of the other agents
  and by nothing else.
\<close>

definition only_agents :: "world \<Rightarrow> world \<Rightarrow> bool" where
  "only_agents w w' \<longleftrightarrow>
     (\<exists>k. mem w' = fold interfere (take k (agents w)) (mem w) \<and> agents w' = drop k (agents w))"

section \<open>Bytes and words\<close>

lemma load_bytes_length: "load_bytes m a k = Some xs \<Longrightarrow> length xs = k"
  by (induction k arbitrary: a xs) (auto split: option.splits)

lemma byte_bound: "unat (x :: byte) < 256"
proof -
  have "unat x < 2 ^ LENGTH(8)" by (rule unsigned_less)
  then show ?thesis by simp
qed

lemma le_val_bound: "le_val xs < 256 ^ length xs"
proof (induction xs)
  case Nil
  then show ?case by simp
next
  case (Cons x xs)
  with byte_bound [of x] show ?case by simp
qed

lemma le_bytes_le_val: "le_bytes (length xs) (le_val xs) = xs"
proof (induction xs)
  case Nil
  then show ?case by simp
next
  case (Cons x xs)
  have "(unat x + 256 * le_val xs) mod 256 = unat x"
    and "(unat x + 256 * le_val xs) div 256 = le_val xs"
    using byte_bound [of x] by simp_all
  with Cons show ?case by simp
qed

lemma length_le_bytes: "length (le_bytes j k) = j"
  by (induction j arbitrary: k) simp_all

lemma length_intptr_bytes: "length (intptr_bytes x) = sizeof_intptr"
  by (simp add: intptr_bytes_def length_le_bytes)

lemma intptr_bytes_of_bytes:
  assumes "length xs = sizeof_intptr"
  shows "intptr_bytes (intptr_of_bytes xs) = xs"
proof -
  have "le_val xs < 2 ^ 64"
    using le_val_bound [of xs] assms by (simp add: sizeof_intptr_def)
  then have "unat (of_nat (le_val xs) :: 64 word) = le_val xs"
    by (simp add: unat_of_nat)
  then show ?thesis
    using le_bytes_le_val [of xs] assms by (simp add: intptr_bytes_def intptr_of_bytes_def)
qed

lemma le_val_le_bytes: "le_val (le_bytes j k) = k mod 256 ^ j"
proof (induction j arbitrary: k)
  case 0
  then show ?case by simp
next
  case (Suc j)
  have "unat (of_nat (k mod 256) :: byte) = k mod 256"
    by (simp add: unat_of_nat)
  then have "le_val (le_bytes (Suc j) k) = k mod 256 + 256 * (k div 256 mod 256 ^ j)"
    by (simp add: Suc.IH)
  also have "\<dots> = k mod (256 * 256 ^ j)"
    by (simp add: mod_mult2_eq)
  finally show ?case by simp
qed

lemma intptr_of_bytes_bytes: "intptr_of_bytes (intptr_bytes x) = x"
proof -
  have "unat x < 2 ^ LENGTH(64)" by (rule unsigned_less)
  then have "unat x mod 256 ^ 8 = unat x" by simp
  then show ?thesis
    by (simp add: intptr_of_bytes_def intptr_bytes_def le_val_le_bytes sizeof_intptr_def)
qed

section \<open>The system call wrapper\<close>

lemma cpu_opv_agents: "agents (snd (cpu_opv w opv k cpu fl)) = agents w"
  by (simp add: cpu_opv_def Let_def split: prod.splits)

lemma cpu_opv_fst:
  "CPU_OP_NR_FLAG \<notin> fl \<Longrightarrow>
   fst (cpu_opv w opv k cpu fl) =
     raw_result (fst (substrate_dispatch w
       \<lparr>req_opv = opv, req_cnt = k, req_cpu = cpu, req_flags = fl\<rparr>))"
  by (simp add: cpu_opv_def raw_status_def Let_def split: prod.splits)

lemma substrate_dispatch_cases:
  "substrate_dispatch w r = (SubstrateUnavailable, mem w)
   \<or> substrate_dispatch w r = (ConfigurationError, mem w)
   \<or> substrate_dispatch w r = exec_vec (mem w) 0 (take (nat (req_cnt r)) (req_opv r))"
  by (simp add: substrate_dispatch_def)

section \<open>The retry loop terminates\<close>

text \<open>When the comparison runs on the memory the loop has just read, it cannot fail.\<close>

lemma exec_compare_same:
  assumes "read_intptr m v = Some oldv"
  shows "exec_compare m i sizeof_intptr (Address v) (Address_of_local oldv) fx fy = (Success, m)"
proof -
  from assms obtain xs
    where xs: "load_bytes m v sizeof_intptr = Some xs" "intptr_of_bytes xs = oldv"
    by (auto simp: read_intptr_def)
  then have "intptr_bytes oldv = xs"
    using intptr_bytes_of_bytes load_bytes_length by blast
  with xs show ?thesis
    by (simp add: exec_compare_def read_operand_def length_intptr_bytes [of oldv, symmetric])
qed

lemma exec_memcpy_raw: "raw_result (fst (exec_memcpy m i k d s fd fs)) \<le> 0"
  by (simp add: exec_memcpy_def fault_outcome_def split: option.splits)

lemma storep_quiet:
  assumes "read_intptr (mem w) v = Some oldv"
  shows "fst (cpu_op_cmpeqv_storep_expect_fault w v oldv newp cpu) \<le> 0"
proof -
  let ?c = "\<lparr>op = CPU_COMPARE_EQ_OP, len = sizeof_intptr,
            u = compare_op (Address v) (Address_of_local oldv) False False\<rparr>"
  let ?m = "\<lparr>op = CPU_MEMCPY_OP, len = sizeof_intptr,
            u = memcpy_op (Address v) (Address newp) False True\<rparr>"
  have c: "exec_op (mem w) 0 ?c = (Success, mem w)"
    using exec_compare_same [OF assms] by (simp add: exec_op_def)
  have "raw_result (fst (exec_op (mem w) 1 ?m)) \<le> 0"
    using exec_memcpy_raw by (simp add: exec_op_def)
  then have v: "raw_result (fst (exec_vec (mem w) 0 [?c, ?m])) \<le> 0"
    using c by (auto split: prod.splits)
  have t: "raw_result (fst (exec_vec (mem w) 0 (take k [?c, ?m]))) \<le> 0" for k
  proof (cases k)
    case 0
    then show ?thesis by simp
  next
    case (Suc j)
    then show ?thesis using c v by (cases j) (auto split: prod.splits)
  qed
  let ?r = "\<lparr>req_opv = [?c, ?m], req_cnt = ARRAY_SIZE [?c, ?m], req_cpu = cpu,
             req_flags = {}\<rparr>"
  have "raw_result (fst (substrate_dispatch w ?r)) \<le> 0"
    using substrate_dispatch_cases [of w ?r] t [of "nat (ARRAY_SIZE [?c, ?m])"] by auto
  then show ?thesis
    by (simp add: cpu_op_cmpeqv_storep_expect_fault_def Let_def cpu_opv_fst)
qed

text \<open>So a retry means that another agent has taken a step, and the agents have only
  finitely many steps left.\<close>

lemma storep_retry_consumes:
  assumes r: "read_intptr (mem w) v = Some oldv"
    and p: "(ret, w') = cpu_op_cmpeqv_storep_expect_fault (other_agents w) v oldv newp cpu"
    and pos: "0 < ret"
  shows "length (agents w') < length (agents w)"
proof -
  have a: "agents w' = agents (other_agents w)"
    using p cpu_opv_agents [of "other_agents w"]
    by (metis cpu_op_cmpeqv_storep_expect_fault_def snd_conv)
  have "agents w \<noteq> []"
  proof
    assume "agents w = []"
    then have "other_agents w = w" by (simp add: other_agents_def)
    with storep_quiet [OF r, of newp cpu] p pos show False
      by (metis fst_conv not_less)
  qed
  then have "length (agents (other_agents w)) < length (agents w)"
    by (cases "agents w") (simp_all add: other_agents_def)
  with a show ?thesis by simp
qed

termination cpu_op_cmpnev_storeoffp_load
  by (relation "measure (\<lambda>(w, v, expectnot, voffp, load, cpu). length (agents w))")
    (auto intro: storep_retry_consumes)

declare cpu_op_cmpnev_storeoffp_load.simps [simp del]

section \<open>Regions of memory\<close>

lemma region_Suc: "region a (Suc k) = insert a (region (a + 1) k)"
proof -
  have "{..<Suc k} = insert 0 (Suc ` {..<k})"
    by (auto simp: lessThan_Suc_eq_insert_0)
  then show ?thesis
    by (simp add: region_def image_image add.assoc)
qed

lemma write_bytes_other: "x \<notin> region a (length xs) \<Longrightarrow> write_bytes m a xs x = m x"
  by (induction xs arbitrary: m a) (auto simp: region_Suc)

lemma load_bytes_cong:
  "(\<And>x. x \<in> region a k \<Longrightarrow> m x = m' x) \<Longrightarrow> load_bytes m a k = load_bytes m' a k"
proof (induction k arbitrary: a)
  case 0
  then show ?case by simp
next
  case (Suc k)
  have "m a = m' a" using Suc.prems by (simp add: region_Suc)
  moreover have "load_bytes m (a + 1) k = load_bytes m' (a + 1) k"
    using Suc.prems by (intro Suc.IH) (simp add: region_Suc)
  ultimately show ?case by (simp split: option.splits)
qed

lemma load_bytes_write_disjoint:
  assumes "region a k \<inter> region d (length xs) = {}"
  shows "load_bytes (write_bytes m d xs) a k = load_bytes m a k"
  using assms by (intro load_bytes_cong write_bytes_other) auto

lemma not_in_next_region:
  assumes "k < 2 ^ 64"
  shows "(a :: addr) \<notin> region (a + 1) k"
proof
  assume "a \<in> region (a + 1) k"
  then obtain i where i: "i < k" "a = a + 1 + of_nat i"
    by (auto simp: region_def)
  then have "(of_nat (Suc i) :: addr) = 0"
    by (simp add: add.assoc)
  then have "2 ^ 64 dvd Suc i"
    by (simp only: word_of_nat_eq_0_iff) simp
  then have "2 ^ 64 \<le> Suc i"
    by (rule dvd_imp_le) simp
  with i assms show False by simp
qed

lemma load_bytes_write_same:
  "length xs \<le> 2 ^ 64 \<Longrightarrow> load_bytes (write_bytes m a xs) a (length xs) = Some xs"
proof (induction xs arbitrary: m a)
  case Nil
  then show ?case by simp
next
  case (Cons x xs)
  then have "a \<notin> region (a + 1) (length xs)"
    by (intro not_in_next_region) simp
  then have "write_bytes (m(a \<mapsto> x)) (a + 1) xs a = Some x"
    by (simp add: write_bytes_other)
  with Cons show ?case by simp
qed


lemma write_bytes_unchanged: "load_bytes m a k = Some xs \<Longrightarrow> write_bytes m a xs = m"
proof (induction k arbitrary: a xs)
  case 0
  then show ?case by simp
next
  case (Suc k)
  from Suc.prems obtain x ys
    where p: "m a = Some x" "load_bytes m (a + 1) k = Some ys" "xs = x # ys"
    by (auto split: option.splits)
  from p(1) have "m(a \<mapsto> x) = m" by (rule map_upd_triv)
  with Suc.IH [OF p(2)] p(3) show ?case by simp
qed

lemma read_intptr_store_intptr:
  assumes "store_intptr m a x = Some m'"
  shows "read_intptr m' a = Some x"
proof -
  from assms have m': "m' = write_bytes m a (intptr_bytes x)"
    by (auto simp: store_intptr_def store_bytes_def split: option.splits)
  have "length (intptr_bytes x) \<le> 2 ^ 64"
    by (simp add: length_intptr_bytes sizeof_intptr_def)
  then have "load_bytes m' a (length (intptr_bytes x)) = Some (intptr_bytes x)"
    unfolding m' by (rule load_bytes_write_same)
  then show ?thesis
    by (simp add: read_intptr_def length_intptr_bytes intptr_of_bytes_bytes)
qed

lemma store_bytes_mapped:
  "load_bytes m a (length xs) \<noteq> None \<Longrightarrow> store_bytes m a xs = Some (write_bytes m a xs)"
  by (auto simp: store_bytes_def split: option.splits)

lemma exec_memcpy_Address:
  assumes "load_bytes m s k = Some xs" and "load_bytes m d k \<noteq> None"
  shows "exec_memcpy m i k (Address d) (Address s) fd fs = (Success, write_bytes m d xs)"
proof -
  have "length xs = k" using assms(1) by (rule load_bytes_length)
  with assms show ?thesis
    by (simp add: exec_memcpy_def read_operand_def write_operand_def store_bytes_mapped)
qed

lemma exec_compare_Address:
  assumes "load_bytes m x k = Some xs" and "load_bytes m y k = Some ys"
  shows "exec_compare m i k (Address x) (Address y) fx fy =
           (if xs = ys then Success else ComparisonMismatch, m)"
  using assms by (simp add: exec_compare_def read_operand_def)

lemma cmpxchg_exec_vec:
  assumes A: "load_bytes m v k = Some A"
    and O: "load_bytes m old k \<noteq> None"
    and A1: "load_bytes (write_bytes m old A) v k = Some A"
    and E1: "load_bytes (write_bytes m old A) expect k = Some E"
    and B1: "load_bytes (write_bytes m old A) n k = Some B"
  shows "exec_vec m 0
     [ \<lparr>op = CPU_MEMCPY_OP, len = k, u = memcpy_op (Address old) (Address v) False False\<rparr>,
       \<lparr>op = CPU_COMPARE_EQ_OP, len = k, u = compare_op (Address v) (Address expect) False False\<rparr>,
       \<lparr>op = CPU_MEMCPY_OP, len = k, u = memcpy_op (Address v) (Address n) False False\<rparr> ] =
     (if A = E then (Success, write_bytes (write_bytes m old A) v B)
      else (ComparisonMismatch, write_bytes m old A))"
proof -
  let ?m1 = "write_bytes m old A"
  have s0: "exec_memcpy m 0 k (Address old) (Address v) False False = (Success, ?m1)"
    using A O by (rule exec_memcpy_Address)
  have s1: "exec_compare ?m1 (Suc 0) k (Address v) (Address expect) False False =
      (if A = E then Success else ComparisonMismatch, ?m1)"
    using A1 E1 by (rule exec_compare_Address)
  have "load_bytes ?m1 v k \<noteq> None" using A1 by simp
  with B1 have s2: "exec_memcpy ?m1 (Suc (Suc 0)) k (Address v) (Address n) False False =
      (Success, write_bytes ?m1 v B)"
    by (rule exec_memcpy_Address)
  show ?thesis
    using s0 s1 s2 by (auto simp: exec_op_def)
qed

section \<open>Compare-and-swap\<close>

text \<open>
  C1 (as amended). \<open>cpu_op_cmpxchg\<close> first copies the word at \<open>v\<close> to \<open>old\<close>, then compares and
  stores. Let the substrate be present, the CPU exist and the maximum vector length be at
  least 3; let the \<open>len\<close> bytes at \<open>v\<close>, \<open>expect\<close> and \<open>n\<close> hold \<open>A\<close>, \<open>E\<close> and \<open>B\<close>, and let
  \<open>old\<close> either be \<open>v\<close> itself, or its \<open>len\<close> bytes be mapped and overlap none of the three. If
  \<open>E = A\<close> the call returns 0, the outcome is Success and a read of \<open>v\<close> then gives \<open>B\<close>.
  Otherwise the call returns the positive status, the outcome is ComparisonMismatch and
  \<open>v\<close> still holds \<open>A\<close>.
\<close>

theorem cmpxchg_amended:
  assumes sub: "available w" "3 \<le> vec_len_max w" "0 \<le> cpu" "cpu < int (nr_cpus w)"
    and A: "load_bytes (mem w) v (unat len') = Some A"
    and E: "load_bytes (mem w) expect (unat len') = Some E"
    and B: "load_bytes (mem w) n (unat len') = Some B"
    and d: "old = v \<or>
            load_bytes (mem w) old (unat len') \<noteq> None \<and>
            region old (unat len') \<inter>
              (region v (unat len') \<union> region expect (unat len') \<union> region n (unat len')) = {}"
  shows "case cpu_op_cmpxchg w v expect old n len' cpu of
           (ret, w') \<Rightarrow>
             if E = A
             then ret = 0 \<and> snd (last (dispatched w')) = Success
                  \<and> load_bytes (mem w') v (unat len') = Some B
             else ret = 1 \<and> snd (last (dispatched w')) = ComparisonMismatch
                  \<and> load_bytes (mem w') v (unat len') = Some A"
proof -
  let ?k = "unat len'"
  let ?vec = "[ \<lparr>op = CPU_MEMCPY_OP, len = ?k, u = memcpy_op (Address old) (Address v) False False\<rparr>,
       \<lparr>op = CPU_COMPARE_EQ_OP, len = ?k, u = compare_op (Address v) (Address expect) False False\<rparr>,
       \<lparr>op = CPU_MEMCPY_OP, len = ?k, u = memcpy_op (Address v) (Address n) False False\<rparr> ]"
  let ?m1 = "write_bytes (mem w) old A"
  have lA: "length A = ?k" using A by (rule load_bytes_length)
  have lB: "length B = ?k" using B by (rule load_bytes_length)
  have "?k < 2 ^ LENGTH(64)" by (rule unsigned_less)
  then have k: "length B \<le> 2 ^ 64" using lB by simp
  have O: "load_bytes (mem w) old ?k \<noteq> None"
    using d A by auto
  have f: "load_bytes ?m1 v ?k = Some A \<and> load_bytes ?m1 expect ?k = Some E
      \<and> load_bytes ?m1 n ?k = Some B"
  proof (cases "old = v")
    case True
    then have "?m1 = mem w" using A by (simp add: write_bytes_unchanged)
    with A E B show ?thesis by simp
  next
    case False
    with d have "region old ?k \<inter> (region v ?k \<union> region expect ?k \<union> region n ?k) = {}"
      by simp
    then have "region v ?k \<inter> region old (length A) = {}"
      and "region expect ?k \<inter> region old (length A) = {}"
      and "region n ?k \<inter> region old (length A) = {}"
      using lA by auto
    with A E B show ?thesis
      by (simp add: load_bytes_write_disjoint)
  qed
  have ex: "exec_vec (mem w) 0 ?vec =
     (if A = E then (Success, write_bytes ?m1 v B) else (ComparisonMismatch, ?m1))"
    using A O f by (intro cmpxchg_exec_vec) simp_all
  have sd: "substrate_dispatch w
      \<lparr>req_opv = ?vec, req_cnt = 3, req_cpu = cpu, req_flags = {}\<rparr> = exec_vec (mem w) 0 ?vec"
    using sub by (simp add: substrate_dispatch_def)
  have A1: "load_bytes ?m1 v ?k = Some A"
    using f by simp
  have B2: "load_bytes (write_bytes ?m1 v B) v ?k = Some B"
    using load_bytes_write_same [OF k, of ?m1 v] lB by simp
  have call: "cpu_op_cmpxchg w v expect old n len' cpu =
      (case exec_vec (mem w) 0 ?vec of
         (out, m') \<Rightarrow> (raw_result out, w\<lparr>mem := m', dispatched := dispatched w @
            [(\<lparr>req_opv = ?vec, req_cnt = 3, req_cpu = cpu, req_flags = {}\<rparr>, out)]\<rparr>))"
    by (simp add: cpu_op_cmpxchg_def cpu_opv_def raw_status_def ARRAY_SIZE_def sd Let_def
        del: exec_vec.simps)
  show ?thesis
    using A1 B2 unfolding call ex by auto
qed

text \<open>
  C1 (witness): on the example state, with \<open>old\<close> at \<open>0x4000\<close>: a mismatch (\<open>expect\<close> holds 2,
  \<open>v\<close> holds 1) and a success (\<open>expect\<close> is \<open>v\<close> itself); then the mismatch again with \<open>old\<close>
  being \<open>v\<close>.
\<close>

theorem cmpxchg_amended_witness:
  "fst (cpu_op_cmpxchg example_world 0x1000 0x2000 0x4000 0x3000 1 0) = 1
   \<and> load_bytes (mem (snd (cpu_op_cmpxchg example_world 0x1000 0x2000 0x4000 0x3000 1 0)))
        0x1000 (unat (1 :: 64 word)) = Some [1]
   \<and> fst (cpu_op_cmpxchg example_world 0x1000 0x1000 0x4000 0x3000 1 0) = 0
   \<and> load_bytes (mem (snd (cpu_op_cmpxchg example_world 0x1000 0x1000 0x4000 0x3000 1 0)))
        0x1000 (unat (1 :: 64 word)) = Some [9]
   \<and> fst (cpu_op_cmpxchg example_world 0x1000 0x2000 0x1000 0x3000 1 0) = 1
   \<and> load_bytes (mem (snd (cpu_op_cmpxchg example_world 0x1000 0x2000 0x1000 0x3000 1 0)))
        0x1000 (unat (1 :: 64 word)) = Some [1]"
proof -
  have sub: "available example_world" "3 \<le> vec_len_max example_world"
    "(0::int) \<le> 0" "0 < int (nr_cpus example_world)"
    by (simp_all add: example_world_def available_def)
  have A: "load_bytes (mem example_world) 0x1000 (unat (1 :: 64 word)) = Some [1]"
    by code_simp
  have E: "load_bytes (mem example_world) 0x2000 (unat (1 :: 64 word)) = Some [2]"
    by code_simp
  have B: "load_bytes (mem example_world) 0x3000 (unat (1 :: 64 word)) = Some [9]"
    by code_simp
  have O: "load_bytes (mem example_world) 0x4000 (unat (1 :: 64 word)) \<noteq> None"
    by code_simp
  have d1: "region 0x4000 (unat (1 :: 64 word)) \<inter>
      (region 0x1000 (unat (1 :: 64 word)) \<union> region 0x2000 (unat (1 :: 64 word))
        \<union> region 0x3000 (unat (1 :: 64 word))) = {}"
    by code_simp
  have d2: "region 0x4000 (unat (1 :: 64 word)) \<inter>
      (region 0x1000 (unat (1 :: 64 word)) \<union> region 0x1000 (unat (1 :: 64 word))
        \<union> region 0x3000 (unat (1 :: 64 word))) = {}"
    by code_simp
  show ?thesis
    using cmpxchg_amended [OF sub A E B disjI2 [OF conjI [OF O d1]]]
      cmpxchg_amended [OF sub A A B disjI2 [OF conjI [OF O d2]]]
      cmpxchg_amended [OF sub A E B disjI1 [OF refl]]
    by (simp add: case_prod_beta)
qed

text \<open>
  C1 (counterexample to the claim as stated). The caller passes the same buffer for \<open>expect\<close>
  and \<open>old\<close>. The word at \<open>v\<close> holds 1 and \<open>expect\<close> holds 2, so the claim asks for
  ComparisonMismatch and an unchanged \<open>v\<close>. The first operation overwrites the buffer with
  1, the comparison then succeeds, and \<open>v\<close> is set to 9.
\<close>

theorem cmpxchg_alias_counterexample:
  "load_bytes (mem example_world) 0x1000 (unat (1 :: 64 word)) = Some [1]
   \<and> load_bytes (mem example_world) 0x2000 (unat (1 :: 64 word)) = Some [2]
   \<and> fst (cpu_op_cmpxchg example_world 0x1000 0x2000 0x2000 0x3000 1 0) = 0
   \<and> snd (last (dispatched (snd (cpu_op_cmpxchg example_world 0x1000 0x2000 0x2000 0x3000 1 0))))
        = Success
   \<and> load_bytes (mem (snd (cpu_op_cmpxchg example_world 0x1000 0x2000 0x2000 0x3000 1 0)))
        0x1000 (unat (1 :: 64 word)) = Some [9]"
  by code_simp

section \<open>What one run of the retry loop does\<close>

lemma only_agents_refl: "only_agents w w"
  unfolding only_agents_def by (rule exI [of _ 0]) simp

lemma only_agents_trans:
  assumes "only_agents w w1" and "only_agents w1 w2"
  shows "only_agents w w2"
proof -
  from assms(1) obtain j
    where j: "mem w1 = fold interfere (take j (agents w)) (mem w)" "agents w1 = drop j (agents w)"
    unfolding only_agents_def by blast
  from assms(2) obtain k
    where k: "mem w2 = fold interfere (take k (agents w1)) (mem w1)" "agents w2 = drop k (agents w1)"
    unfolding only_agents_def by blast
  have "take (j + k) (agents w) = take j (agents w) @ take k (drop j (agents w))"
    by (rule take_add)
  then have "mem w2 = fold interfere (take (j + k) (agents w)) (mem w)"
    using j k by simp
  moreover have "agents w2 = drop (j + k) (agents w)"
    using j k by (simp add: add.commute)
  ultimately show ?thesis
    unfolding only_agents_def by blast
qed

lemma only_agents_other: "only_agents w (other_agents w)"
proof (cases "agents w")
  case Nil
  then show ?thesis by (simp add: other_agents_def only_agents_refl)
next
  case (Cons i rest)
  then show ?thesis
    unfolding only_agents_def by (intro exI [of _ 1]) (simp add: other_agents_def)
qed

lemma exec_compare_mem: "snd (exec_compare m i k x y fx fy) = m"
  by (simp add: exec_compare_def split: option.splits)

lemma exec_memcpy_fail:
  "fst (exec_memcpy m i k d s fd fs) \<noteq> Success \<Longrightarrow> snd (exec_memcpy m i k d s fd fs) = m"
  by (simp add: exec_memcpy_def split: option.splits)

lemma retry_vec_fail:
  assumes "fst (exec_vec m 0 (take k (req_opv (retry_request v x p cpu)))) \<noteq> Success"
  shows "snd (exec_vec m 0 (take k (req_opv (retry_request v x p cpu)))) = m"
proof -
  let ?c = "\<lparr>op = CPU_COMPARE_EQ_OP, len = sizeof_intptr,
            u = compare_op (Address v) (Address_of_local x) False False\<rparr>"
  let ?m = "\<lparr>op = CPU_MEMCPY_OP, len = sizeof_intptr,
            u = memcpy_op (Address v) (Address p) False True\<rparr>"
  have c: "snd (exec_op m 0 ?c) = m"
    by (simp add: exec_op_def exec_compare_mem)
  have y: "fst (exec_op m (Suc 0) ?m) \<noteq> Success \<Longrightarrow> snd (exec_op m (Suc 0) ?m) = m"
    by (simp add: exec_op_def exec_memcpy_fail)
  consider "k = 0" | "k = 1" | "2 \<le> k" by linarith
  then show ?thesis
  proof cases
    case 1
    with assms show ?thesis by simp
  next
    case 2
    with assms c show ?thesis
      by (auto simp: retry_request_def split: prod.splits if_splits)
  next
    case 3
    then have "take k [?c, ?m] = [?c, ?m]" by simp
    with assms c y show ?thesis
      by (auto simp: retry_request_def split: prod.splits if_splits)
  qed
qed

lemma exec_compare_unflagged:
  "fst (exec_compare m i k x y False False) \<noteq> RecoverableFault j q"
  by (simp add: exec_compare_def fault_outcome_def split: option.splits)

lemma exec_memcpy_src_flagged:
  "fst (exec_memcpy m i k d s False True) = RecoverableFault j q \<Longrightarrow> j = i \<and> q = Role_src"
  by (auto simp: exec_memcpy_def fault_outcome_def split: option.splits)

lemma retry_vec_recoverable:
  assumes "fst (exec_vec m 0 (take k (req_opv (retry_request v x p cpu)))) = RecoverableFault j q"
  shows "j = 1 \<and> q = Role_src"
proof -
  let ?c = "\<lparr>op = CPU_COMPARE_EQ_OP, len = sizeof_intptr,
            u = compare_op (Address v) (Address_of_local x) False False\<rparr>"
  let ?m = "\<lparr>op = CPU_MEMCPY_OP, len = sizeof_intptr,
            u = memcpy_op (Address v) (Address p) False True\<rparr>"
  have c: "exec_op m' 0 ?c \<noteq> (RecoverableFault j q, m2)" for m' m2
    using exec_compare_unflagged [of m' 0 sizeof_intptr "Address v" "Address_of_local x" j q]
    by (auto simp: exec_op_def)
  have y: "exec_op m' (Suc 0) ?m = (RecoverableFault j q, m2) \<Longrightarrow> j = 1 \<and> q = Role_src"
    for m' m2
    using exec_memcpy_src_flagged [of m' "Suc 0" sizeof_intptr "Address v" "Address p" j q]
    by (simp add: exec_op_def)
  consider "k = 0" | "k = 1" | "2 \<le> k" by linarith
  then show ?thesis
  proof cases
    case 1
    with assms show ?thesis by simp
  next
    case 2
    with assms c [of m] show ?thesis
      by (auto simp: retry_request_def split: prod.splits if_splits)
  next
    case 3
    then have "take k [?c, ?m] = [?c, ?m]" by simp
    with assms c [of m] y show ?thesis
      by (auto simp: retry_request_def split: prod.splits if_splits)
  qed
qed

lemma storep_result:
  assumes "cpu_op_cmpeqv_storep_expect_fault w v x p cpu = (ret, w1)"
  shows "\<exists>out m'. ret = raw_result out
           \<and> w1 = w\<lparr>mem := m', dispatched := dispatched w @ [(retry_request v x p cpu, out)]\<rparr>
           \<and> (out \<noteq> Success \<longrightarrow> m' = mem w)
           \<and> (\<forall>j q. out = RecoverableFault j q \<longrightarrow> j = 1 \<and> q = Role_src)"
proof -
  let ?r = "retry_request v x p cpu"
  obtain out m' where sd: "substrate_dispatch w ?r = (out, m')"
    by force
  have "\<forall>j q. out = RecoverableFault j q \<longrightarrow> j = 1 \<and> q = Role_src"
    using substrate_dispatch_cases [of w ?r]
      retry_vec_recoverable [of "mem w" "nat (req_cnt ?r)" v x p cpu] sd
    by (metis ExecutionOutcome.distinct fst_conv)
  moreover
  have "out \<noteq> Success \<longrightarrow> m' = mem w"
    using substrate_dispatch_cases [of w ?r] retry_vec_fail [of "mem w" "nat (req_cnt ?r)" v x p cpu] sd
    by (metis ExecutionOutcome.distinct(1) fst_conv snd_conv)
  moreover have "ret = raw_result out"
    and "w1 = w\<lparr>mem := m', dispatched := dispatched w @ [(?r, out)]\<rparr>"
    using assms sd
    by (simp_all add: cpu_op_cmpeqv_storep_expect_fault_def Let_def cpu_opv_def raw_status_def
        ARRAY_SIZE_def retry_request_def)
  ultimately show ?thesis by blast
qed


lemma coordinator_frame:
  assumes "cpu_op_cmpnev_storeoffp_load w v expectnot voffp load cpu = (res, w')"
  shows "(res = Inl SIGSEGV \<or> res = Inr 0 \<or> res = Inr 1 \<or> res = Inr (- 1))
       \<and> (res = Inr 1 \<or> res = Inr (- 1) \<longrightarrow> only_agents w w')"
  using assms
proof (induction w v expectnot voffp load cpu arbitrary: res w'
    rule: cpu_op_cmpnev_storeoffp_load.induct)
  case (1 w v expectnot voffp load cpu)
  note run = "1.prems" [unfolded cpu_op_cmpnev_storeoffp_load.simps [of w]]
  show ?case
  proof (cases "read_intptr (mem w) v")
    case None
    with run show ?thesis by auto
  next
    case (Some oldv)
    show ?thesis
    proof (cases "oldv = expectnot")
      case True
      with run Some show ?thesis by (auto simp: only_agents_refl)
    next
      case False
      obtain ret w1
        where d: "cpu_op_cmpeqv_storep_expect_fault (other_agents w) v oldv (oldv + voffp) cpu
                    = (ret, w1)"
        by force
      from storep_result [OF d] obtain out m1
        where o: "ret = raw_result out"
          "w1 = (other_agents w)\<lparr>mem := m1, dispatched := dispatched (other_agents w) @
              [(retry_request v oldv (oldv + voffp) cpu, out)]\<rparr>"
          "out \<noteq> Success \<longrightarrow> m1 = mem (other_agents w)"
        by blast
      consider "ret = 0" | "0 < ret" | "ret < 0" by linarith
      then show ?thesis
      proof cases
        case 1
        with run Some False d show ?thesis
          by (fastforce simp: Let_def split: option.splits)
      next
        case 2
        then have out: "out \<noteq> Success" using o(1) by auto
        have a: "only_agents w w1"
          using only_agents_other [of w] o(2,3) out
          by (auto simp: only_agents_def)
        have r: "cpu_op_cmpnev_storeoffp_load w1 v expectnot voffp load cpu = (res, w')"
          using run Some False d 2 by (simp add: Let_def)
        from "1.IH" [OF Some refl False d [symmetric] _ 2 r] 2
        show ?thesis
          using only_agents_trans [OF a] by auto
      next
        case 3
        then have out: "out \<noteq> Success" using o(1) by auto
        have a: "only_agents w w1"
          using only_agents_other [of w] o(2,3) out
          by (auto simp: only_agents_def)
        with run Some False d 3 show ?thesis
          by (auto simp: Let_def)
      qed
    qed
  qed
qed


lemma dispatched_other_agents: "dispatched (other_agents w) = dispatched w"
  by (simp add: other_agents_def split: list.splits)

lemma coordinator_log:
  assumes "cpu_op_cmpnev_storeoffp_load w v expectnot voffp load cpu = (res, w')"
  shows "\<exists>es. dispatched w' = dispatched w @ es
           \<and> (\<forall>e \<in> set es. (\<exists>x. fst e = retry_request v x (x + voffp) cpu)
                  \<and> (\<forall>j q. snd e = RecoverableFault j q \<longrightarrow> j = 1 \<and> q = Role_src))
           \<and> (\<forall>oldv. read_intptr (mem w) v = Some oldv \<and> oldv \<noteq> expectnot \<longrightarrow>
                 es \<noteq> [] \<and> fst (hd es) = retry_request v oldv (oldv + voffp) cpu)"
  using assms
proof (induction w v expectnot voffp load cpu arbitrary: res w'
    rule: cpu_op_cmpnev_storeoffp_load.induct)
  case (1 w v expectnot voffp load cpu)
  note run = "1.prems" [unfolded cpu_op_cmpnev_storeoffp_load.simps [of w]]
  show ?case
  proof (cases "read_intptr (mem w) v")
    case None
    with run show ?thesis by auto
  next
    case (Some oldv)
    show ?thesis
    proof (cases "oldv = expectnot")
      case True
      with run Some show ?thesis by auto
    next
      case False
      obtain ret w1
        where d: "cpu_op_cmpeqv_storep_expect_fault (other_agents w) v oldv (oldv + voffp) cpu
                    = (ret, w1)"
        by force
      from storep_result [OF d] obtain out m1
        where o: "ret = raw_result out"
          "w1 = (other_agents w)\<lparr>mem := m1, dispatched := dispatched (other_agents w) @
              [(retry_request v oldv (oldv + voffp) cpu, out)]\<rparr>"
          "\<forall>j q. out = RecoverableFault j q \<longrightarrow> j = 1 \<and> q = Role_src"
        by blast
      let ?e = "(retry_request v oldv (oldv + voffp) cpu, out)"
      have l1: "dispatched w1 = dispatched w @ [?e]"
        using o(2) by (simp add: dispatched_other_agents)
      consider "ret = 0" | "0 < ret" | "ret < 0" by linarith
      then show ?thesis
      proof cases
        case 1
        with run Some False d have "dispatched w' = dispatched w1"
          by (auto simp: Let_def split: option.splits)
        with l1 Some o(3) show ?thesis by auto
      next
        case 2
        have r: "cpu_op_cmpnev_storeoffp_load w1 v expectnot voffp load cpu = (res, w')"
          using run Some False d 2 by (simp add: Let_def)
        from "1.IH" [OF Some refl False d [symmetric] _ 2 r] 2
        obtain es where es: "dispatched w' = dispatched w1 @ es"
          "\<forall>e \<in> set es. (\<exists>x. fst e = retry_request v x (x + voffp) cpu)
              \<and> (\<forall>j q. snd e = RecoverableFault j q \<longrightarrow> j = 1 \<and> q = Role_src)"
          by auto
        have "dispatched w' = dispatched w @ (?e # es)"
          using es(1) l1 by simp
        moreover have "\<forall>e \<in> set (?e # es). (\<exists>x. fst e = retry_request v x (x + voffp) cpu)
              \<and> (\<forall>j q. snd e = RecoverableFault j q \<longrightarrow> j = 1 \<and> q = Role_src)"
          using es(2) o(3) by auto
        ultimately show ?thesis
          using Some by (intro exI [of _ "?e # es"]) simp
      next
        case 3
        with run Some False d have "dispatched w' = dispatched w1"
          by (auto simp: Let_def)
        with l1 Some o(3) show ?thesis by auto
      qed
    qed
  qed
qed


lemma memory_after_0: "memory_after 0 w = mem w"
  by (simp add: memory_after_def)

lemma memory_after_other_agents: "memory_after j (other_agents w) = memory_after (Suc j) w"
  by (cases "agents w") (simp_all add: memory_after_def other_agents_def)

lemma memory_after_cong:
  "mem w1 = mem w \<Longrightarrow> agents w1 = agents w \<Longrightarrow> memory_after j w1 = memory_after j w"
  by (simp add: memory_after_def)

lemma raw_result_pos: "0 < raw_result out \<longleftrightarrow> out = ComparisonMismatch"
  by (cases out) simp_all

lemma coordinator_trace:
  assumes "cpu_op_cmpnev_storeoffp_load w v expectnot voffp load cpu = (res, w')"
  shows "\<exists>es. dispatched w' = dispatched w @ es
           \<and> (\<forall>j < length es. \<exists>x. read_intptr (memory_after j w) v = Some x \<and> x \<noteq> expectnot
                  \<and> fst (es ! j) = retry_request v x (x + voffp) cpu)
           \<and> (\<forall>j. Suc j < length es \<longrightarrow> snd (es ! j) = ComparisonMismatch)
           \<and> (es = [] \<or> snd (last es) = ComparisonMismatch \<longrightarrow>
                read_intptr (memory_after (length es) w) v = None
                \<or> read_intptr (memory_after (length es) w) v = Some expectnot)"
  using assms
proof (induction w v expectnot voffp load cpu arbitrary: res w'
    rule: cpu_op_cmpnev_storeoffp_load.induct)
  case (1 w v expectnot voffp load cpu)
  note run = "1.prems" [unfolded cpu_op_cmpnev_storeoffp_load.simps [of w]]
  show ?case
  proof (cases "read_intptr (mem w) v")
    case None
    with run have "dispatched w' = dispatched w @ []" by auto
    with None show ?thesis
      by (intro exI [of _ "[]"]) (simp add: memory_after_0)
  next
    case (Some oldv)
    show ?thesis
    proof (cases "oldv = expectnot")
      case True
      with run Some have "dispatched w' = dispatched w @ []" by auto
      with Some True show ?thesis
        by (intro exI [of _ "[]"]) (simp add: memory_after_0)
    next
      case False
      obtain ret w1
        where d: "cpu_op_cmpeqv_storep_expect_fault (other_agents w) v oldv (oldv + voffp) cpu
                    = (ret, w1)"
        by force
      from storep_result [OF d] obtain out m1
        where o: "ret = raw_result out"
          "w1 = (other_agents w)\<lparr>mem := m1, dispatched := dispatched (other_agents w) @
              [(retry_request v oldv (oldv + voffp) cpu, out)]\<rparr>"
          "out \<noteq> Success \<longrightarrow> m1 = mem (other_agents w)"
        by blast
      let ?e = "(retry_request v oldv (oldv + voffp) cpu, out)"
      have l1: "dispatched w1 = dispatched w @ [?e]"
        using o(2) by (simp add: dispatched_other_agents)
      have first: "\<exists>x. read_intptr (memory_after 0 w) v = Some x \<and> x \<noteq> expectnot
          \<and> fst ?e = retry_request v x (x + voffp) cpu"
        using Some False by (simp add: memory_after_0)
      have single: ?thesis if "dispatched w' = dispatched w1" and "out \<noteq> ComparisonMismatch"
      proof (intro exI [of _ "[?e]"] conjI)
        show "dispatched w' = dispatched w @ [?e]" using that l1 by simp
        show "\<forall>j<length [?e]. \<exists>x. read_intptr (memory_after j w) v = Some x \<and> x \<noteq> expectnot
            \<and> fst ([?e] ! j) = retry_request v x (x + voffp) cpu"
          using first by simp
        show "\<forall>j. Suc j < length [?e] \<longrightarrow> snd ([?e] ! j) = ComparisonMismatch"
          by simp
        show "[?e] = [] \<or> snd (last [?e]) = ComparisonMismatch \<longrightarrow>
            read_intptr (memory_after (length [?e]) w) v = None
            \<or> read_intptr (memory_after (length [?e]) w) v = Some expectnot"
          using that by simp
      qed
      consider "ret = 0" | "0 < ret" | "ret < 0" by linarith
      then show ?thesis
      proof cases
        case 1
        with run Some False d have "dispatched w' = dispatched w1"
          by (auto simp: Let_def split: option.splits)
        moreover from 1 o(1) have "out \<noteq> ComparisonMismatch" by auto
        ultimately show ?thesis by (rule single)
      next
        case 2
        then have out: "out = ComparisonMismatch"
          using o(1) by (simp add: raw_result_pos)
        have r: "cpu_op_cmpnev_storeoffp_load w1 v expectnot voffp load cpu = (res, w')"
          using run Some False d 2 by (simp add: Let_def)
        have "mem w1 = mem (other_agents w)" "agents w1 = agents (other_agents w)"
          using o(2,3) out by simp_all
        then have ma: "memory_after j w1 = memory_after (Suc j) w" for j
          using memory_after_cong [of w1 "other_agents w" j] memory_after_other_agents [of j w]
          by simp
        from "1.IH" [OF Some refl False d [symmetric] _ 2 r] 2
        obtain es where es: "dispatched w' = dispatched w1 @ es"
          "\<forall>j < length es. \<exists>x. read_intptr (memory_after (Suc j) w) v = Some x \<and> x \<noteq> expectnot
              \<and> fst (es ! j) = retry_request v x (x + voffp) cpu"
          "\<forall>j. Suc j < length es \<longrightarrow> snd (es ! j) = ComparisonMismatch"
          "es = [] \<or> snd (last es) = ComparisonMismatch \<longrightarrow>
              read_intptr (memory_after (Suc (length es)) w) v = None
              \<or> read_intptr (memory_after (Suc (length es)) w) v = Some expectnot"
          unfolding ma by auto
        show ?thesis
        proof (intro exI [of _ "?e # es"] conjI)
          show "dispatched w' = dispatched w @ ?e # es" using es(1) l1 by simp
          show "\<forall>j<length (?e # es). \<exists>x. read_intptr (memory_after j w) v = Some x
              \<and> x \<noteq> expectnot \<and> fst ((?e # es) ! j) = retry_request v x (x + voffp) cpu"
          proof (intro allI impI)
            fix j assume "j < length (?e # es)"
            then show "\<exists>x. read_intptr (memory_after j w) v = Some x
              \<and> x \<noteq> expectnot \<and> fst ((?e # es) ! j) = retry_request v x (x + voffp) cpu"
              using first es(2) by (cases j) auto
          qed
          show "\<forall>j. Suc j < length (?e # es) \<longrightarrow> snd ((?e # es) ! j) = ComparisonMismatch"
          proof (intro allI impI)
            fix j assume "Suc j < length (?e # es)"
            then show "snd ((?e # es) ! j) = ComparisonMismatch"
              using out es(3) by (cases j) auto
          qed
          show "?e # es = [] \<or> snd (last (?e # es)) = ComparisonMismatch \<longrightarrow>
              read_intptr (memory_after (length (?e # es)) w) v = None
              \<or> read_intptr (memory_after (length (?e # es)) w) v = Some expectnot"
            using es(4) by (cases "es = []") auto
        qed
      next
        case 3
        with run Some False d have "dispatched w' = dispatched w1"
          by (auto simp: Let_def)
        moreover from 3 o(1) have "out \<noteq> ComparisonMismatch" by auto
        ultimately show ?thesis by (rule single)
      qed
    qed
  qed
qed


lemma coordinator_fault_return:
  assumes "cpu_op_cmpnev_storeoffp_load w v expectnot voffp load cpu = (res, w')"
    and "dispatched w' = dispatched w @ es" and "es \<noteq> []"
    and "raw_result (snd (last es)) < 0"
  shows "res = Inr (- 1)"
  using assms
proof (induction w v expectnot voffp load cpu arbitrary: res w' es
    rule: cpu_op_cmpnev_storeoffp_load.induct)
  case (1 w v expectnot voffp load cpu)
  note run = "1.prems"(1) [unfolded cpu_op_cmpnev_storeoffp_load.simps [of w]]
  note log = "1.prems"(2,3,4)
  show ?case
  proof (cases "read_intptr (mem w) v")
    case None
    with run log show ?thesis by auto
  next
    case (Some oldv)
    show ?thesis
    proof (cases "oldv = expectnot")
      case True
      with run Some log show ?thesis by auto
    next
      case False
      obtain ret w1
        where d: "cpu_op_cmpeqv_storep_expect_fault (other_agents w) v oldv (oldv + voffp) cpu
                    = (ret, w1)"
        by force
      from storep_result [OF d] obtain out m1
        where o: "ret = raw_result out"
          "w1 = (other_agents w)\<lparr>mem := m1, dispatched := dispatched (other_agents w) @
              [(retry_request v oldv (oldv + voffp) cpu, out)]\<rparr>"
        by blast
      let ?e = "(retry_request v oldv (oldv + voffp) cpu, out)"
      have l1: "dispatched w1 = dispatched w @ [?e]"
        using o(2) by (simp add: dispatched_other_agents)
      consider "ret = 0" | "0 < ret" | "ret < 0" by linarith
      then show ?thesis
      proof cases
        case 1
        with run Some False d have "dispatched w' = dispatched w1"
          by (auto simp: Let_def split: option.splits)
        with l1 log(1) have "es = [?e]" by simp
        with log(3) o(1) 1 show ?thesis by simp
      next
        case 2
        have r: "cpu_op_cmpnev_storeoffp_load w1 v expectnot voffp load cpu = (res, w')"
          using run Some False d 2 by (simp add: Let_def)
        from coordinator_log [OF r] obtain es1 where es1: "dispatched w' = dispatched w1 @ es1"
          by blast
        with l1 log(1) have es: "es = ?e # es1" by simp
        have "es1 \<noteq> []"
        proof
          assume "es1 = []"
          with es log(3) o(1) 2 show False by simp
        qed
        moreover from this es log(3) have "raw_result (snd (last es1)) < 0" by simp
        ultimately show ?thesis
          using "1.IH" [OF Some refl False d [symmetric] _ 2 r es1] 2 by simp
      next
        case 3
        with run Some False d show ?thesis
          by (auto simp: Let_def)
      qed
    qed
  qed
qed

lemma raw_result_0: "raw_result out = 0 \<longleftrightarrow> out = Success"
  by (cases out) simp_all

lemma coordinator_success:
  assumes "cpu_op_cmpnev_storeoffp_load w v expectnot voffp load cpu = (Inr 0, w')"
  shows "\<exists>x. last (dispatched w') = (retry_request v x (x + voffp) cpu, Success)
           \<and> read_intptr (mem w') load = Some x"
  using assms
proof (induction w v expectnot voffp load cpu arbitrary: w'
    rule: cpu_op_cmpnev_storeoffp_load.induct)
  case (1 w v expectnot voffp load cpu)
  note run = "1.prems" [unfolded cpu_op_cmpnev_storeoffp_load.simps [of w]]
  show ?case
  proof (cases "read_intptr (mem w) v")
    case None
    with run show ?thesis by simp
  next
    case (Some oldv)
    show ?thesis
    proof (cases "oldv = expectnot")
      case True
      with run Some show ?thesis by simp
    next
      case False
      obtain ret w1
        where d: "cpu_op_cmpeqv_storep_expect_fault (other_agents w) v oldv (oldv + voffp) cpu
                    = (ret, w1)"
        by force
      from storep_result [OF d] obtain out m1
        where o: "ret = raw_result out"
          "w1 = (other_agents w)\<lparr>mem := m1, dispatched := dispatched (other_agents w) @
              [(retry_request v oldv (oldv + voffp) cpu, out)]\<rparr>"
        by blast
      consider "ret = 0" | "0 < ret" | "ret < 0" by linarith
      then show ?thesis
      proof cases
        case 1
        then have out: "out = Success" using o(1) by (simp add: raw_result_0)
        from run Some False d 1 obtain m2
          where s: "store_intptr (mem w1) load oldv = Some m2" "w' = w1\<lparr>mem := m2\<rparr>"
          by (auto simp: Let_def split: option.splits)
        have "last (dispatched w') = (retry_request v oldv (oldv + voffp) cpu, Success)"
          using s(2) o(2) out by simp
        moreover have "read_intptr (mem w') load = Some oldv"
          using read_intptr_store_intptr [OF s(1)] s(2) by simp
        ultimately show ?thesis by blast
      next
        case 2
        have r: "cpu_op_cmpnev_storeoffp_load w1 v expectnot voffp load cpu = (Inr 0, w')"
          using run Some False d 2 by (simp add: Let_def)
        from "1.IH" [OF Some refl False d [symmetric] _ 2 r] 2
        show ?thesis by simp
      next
        case 3
        with run Some False d show ?thesis
          by (simp add: Let_def)
      qed
    qed
  qed
qed

lemma only_agents_quiet: "only_agents w w' \<Longrightarrow> agents w = [] \<Longrightarrow> mem w' = mem w"
  by (auto simp: only_agents_def)

section \<open>The vector of compare-and-swap\<close>

lemma cpu_opv_dispatched:
  "map fst (dispatched (snd (cpu_opv w opv k cpu fl))) =
     map fst (dispatched w) @ [\<lparr>req_opv = opv, req_cnt = k, req_cpu = cpu, req_flags = fl\<rparr>]"
  by (simp add: cpu_opv_def Let_def split: prod.splits)

text \<open>
  C2 (as amended). For every input \<open>cpu_op_cmpxchg\<close> issues one request, whose vector has
  three operations in this order: Copy(old, v), which saves the current word,
  Compare(v, expect) and Copy(v, n). No operand is marked as allowed to fault.
\<close>

theorem cmpxchg_vector:
  "map fst (dispatched (snd (cpu_op_cmpxchg w v expect old n len' cpu))) =
     map fst (dispatched w) @
       [\<lparr>req_opv =
           [ \<lparr>op = CPU_MEMCPY_OP, len = unat len',
               u = memcpy_op (Address old) (Address v) False False\<rparr>,
             \<lparr>op = CPU_COMPARE_EQ_OP, len = unat len',
               u = compare_op (Address v) (Address expect) False False\<rparr>,
             \<lparr>op = CPU_MEMCPY_OP, len = unat len',
               u = memcpy_op (Address v) (Address n) False False\<rparr> ],
         req_cnt = 3, req_cpu = cpu, req_flags = {}\<rparr>]"
  by (simp add: cpu_op_cmpxchg_def Let_def cpu_opv_dispatched ARRAY_SIZE_def)

text \<open>C2 (witness): the request issued on the example state.\<close>

theorem cmpxchg_vector_witness:
  "map fst (dispatched (snd (cpu_op_cmpxchg example_world 0x1000 0x2000 0x4000 0x3000 1 0))) =
       [\<lparr>req_opv =
           [ \<lparr>op = CPU_MEMCPY_OP, len = 1,
               u = memcpy_op (Address 0x4000) (Address 0x1000) False False\<rparr>,
             \<lparr>op = CPU_COMPARE_EQ_OP, len = 1,
               u = compare_op (Address 0x1000) (Address 0x2000) False False\<rparr>,
             \<lparr>op = CPU_MEMCPY_OP, len = 1,
               u = memcpy_op (Address 0x1000) (Address 0x3000) False False\<rparr> ],
         req_cnt = 3, req_cpu = 0, req_flags = {}\<rparr>]"
  using cmpxchg_vector [of example_world "0x1000" "0x2000" "0x4000" "0x3000" 1 0]
  by (simp add: example_world_def)

text \<open>
  C2 (counterexample to the claim as stated): on the example state the request issued is
  not the two-operation vector Compare(v, expect), Copy(v, n).
\<close>

theorem cmpxchg_two_step_counterexample:
  "map fst (dispatched (snd (cpu_op_cmpxchg example_world 0x1000 0x2000 0x4000 0x3000 1 0))) \<noteq>
       [\<lparr>req_opv =
           [ \<lparr>op = CPU_COMPARE_EQ_OP, len = 1,
               u = compare_op (Address 0x1000) (Address 0x2000) False False\<rparr>,
             \<lparr>op = CPU_MEMCPY_OP, len = 1,
               u = memcpy_op (Address 0x1000) (Address 0x3000) False False\<rparr> ],
         req_cnt = 2, req_cpu = 0, req_flags = {}\<rparr>]"
  by (simp add: cpu_op_cmpxchg_def Let_def cpu_opv_dispatched ARRAY_SIZE_def example_world_def)

section \<open>The release variants\<close>

text \<open>
  C7. The vectors of \<open>cpu_op_cmpeqv_storev_mb_storev\<close> and \<open>cpu_op_cmpeqv_memcpy_mb_storev\<close>
  have three operations: a comparison, a plain copy and, last, the release copy that stores
  \<open>newv\<close> into \<open>v\<close>. The release variant is carried by the last operation and by no other.
\<close>

theorem release_on_final_store:
  "map fst (dispatched (snd (cpu_op_cmpeqv_storev_mb_storev w v expect v2 newv2 newv cpu))) =
     map fst (dispatched w) @
       [\<lparr>req_opv =
           [ \<lparr>op = CPU_COMPARE_EQ_OP, len = sizeof_intptr,
               u = compare_op (Address v) (Address_of_local expect) False False\<rparr>,
             \<lparr>op = CPU_MEMCPY_OP, len = sizeof_intptr,
               u = memcpy_op (Address v2) (Address_of_local newv2) False False\<rparr>,
             \<lparr>op = CPU_MEMCPY_RELEASE_OP, len = sizeof_intptr,
               u = memcpy_op (Address v) (Address_of_local newv) False False\<rparr> ],
         req_cnt = 3, req_cpu = cpu, req_flags = {}\<rparr>]
   \<and> map (release_variant \<circ> op)
         (req_opv (fst (last (dispatched
            (snd (cpu_op_cmpeqv_storev_mb_storev w v expect v2 newv2 newv cpu))))))
       = [False, False, True]
   \<and> map fst (dispatched (snd (cpu_op_cmpeqv_memcpy_mb_storev w v expect dst src len' newv cpu))) =
     map fst (dispatched w) @
       [\<lparr>req_opv =
           [ \<lparr>op = CPU_COMPARE_EQ_OP, len = sizeof_intptr,
               u = compare_op (Address v) (Address_of_local expect) False False\<rparr>,
             \<lparr>op = CPU_MEMCPY_OP, len = unat len',
               u = memcpy_op (Address dst) (Address src) False False\<rparr>,
             \<lparr>op = CPU_MEMCPY_RELEASE_OP, len = sizeof_intptr,
               u = memcpy_op (Address v) (Address_of_local newv) False False\<rparr> ],
         req_cnt = 3, req_cpu = cpu, req_flags = {}\<rparr>]
   \<and> map (release_variant \<circ> op)
         (req_opv (fst (last (dispatched
            (snd (cpu_op_cmpeqv_memcpy_mb_storev w v expect dst src len' newv cpu))))))
       = [False, False, True]"
  by (simp add: cpu_op_cmpeqv_storev_mb_storev_def cpu_op_cmpeqv_memcpy_mb_storev_def Let_def
      cpu_opv_dispatched ARRAY_SIZE_def release_variant_def cpu_opv_def split: prod.splits)

text \<open>C7 (witness): which operations carry the release variant, on the example state.\<close>

theorem release_on_final_store_witness:
  "map (release_variant \<circ> op) (req_opv (fst (last (dispatched
      (snd (cpu_op_cmpeqv_storev_mb_storev example_world 0x10 1 0x20 2 3 0))))))
     = [False, False, True]
   \<and> map (release_variant \<circ> op) (req_opv (fst (last (dispatched
      (snd (cpu_op_cmpeqv_memcpy_mb_storev example_world 0x10 1 0x20 0x30 4 3 0))))))
     = [False, False, True]"
  using release_on_final_store
    [where w = example_world and v = "0x10" and expect = 1 and ?v2.0 = "0x20" and ?newv2.0 = 2
      and newv = 3 and cpu = 0 and dst = "0x20" and src = "0x30" and len' = 4]
  by blast

section \<open>The availability probe\<close>

text \<open>
  C8. \<open>cpu_op_available\<close> issues one request: no operations, a count of 0 and the flag
  \<open>CPU_OP_NR_FLAG\<close>, so that it is not pinned. The raw status of that request is the
  system's answer to a probe, which may be any number. The function returns 1 when that
  status is not negative, whether it is 0 or more, and 0 when it is negative. Nothing but
  the record of the request changes: memory is as before.
\<close>

theorem available_probe:
  "fst (cpu_opv w [] 0 0 {CPU_OP_NR_FLAG}) = probe_status w
   \<and> fst (cpu_op_available w) = (if 0 \<le> fst (cpu_opv w [] 0 0 {CPU_OP_NR_FLAG}) then 1 else 0)
   \<and> fst (cpu_op_available w) = (if 0 \<le> probe_status w then 1 else 0)
   \<and> snd (cpu_op_available w) =
        w\<lparr>dispatched := dispatched w @
          [(\<lparr>req_opv = [], req_cnt = 0, req_cpu = 0, req_flags = {CPU_OP_NR_FLAG}\<rparr>,
            if available w then Success else SubstrateUnavailable)]\<rparr>"
  by (simp add: cpu_op_available_def cpu_opv_def substrate_dispatch_def raw_status_def Let_def
      split: prod.splits)

text \<open>C8 (witness): a probe answered with 5, one answered with 0 and one answered with the
  error \<open>-1\<close>; the first leaves memory as it was.\<close>

theorem available_probe_witness:
  "fst (cpu_opv example_world [] 0 0 {CPU_OP_NR_FLAG}) = 5
   \<and> fst (cpu_op_available example_world) = 1
   \<and> fst (cpu_opv (example_world\<lparr>probe_status := 0\<rparr>) [] 0 0 {CPU_OP_NR_FLAG}) = 0
   \<and> fst (cpu_op_available (example_world\<lparr>probe_status := 0\<rparr>)) = 1
   \<and> fst (cpu_opv absent_world [] 0 0 {CPU_OP_NR_FLAG}) = - 1
   \<and> fst (cpu_op_available absent_world) = 0
   \<and> mem (snd (cpu_op_available example_world)) = mem example_world"
proof -
  have s: "probe_status example_world = 5" "probe_status absent_world = - 1"
    "probe_status (example_world\<lparr>probe_status := 0\<rparr>) = 0"
    by (simp_all add: example_world_def absent_world_def)
  note p = available_probe [of example_world]
  note z = available_probe [of "example_world\<lparr>probe_status := 0\<rparr>"]
  note q = available_probe [of absent_world]
  have "mem (snd (cpu_op_available example_world)) = mem example_world"
    by (simp add: p [THEN conjunct2, THEN conjunct2, THEN conjunct2])
  moreover have "fst (cpu_opv example_world [] 0 0 {CPU_OP_NR_FLAG}) = 5"
    and "fst (cpu_op_available example_world) = 1"
    using s by (simp_all add: p [THEN conjunct1] p [THEN conjunct2, THEN conjunct2, THEN conjunct1])
  moreover have "fst (cpu_opv (example_world\<lparr>probe_status := 0\<rparr>) [] 0 0 {CPU_OP_NR_FLAG}) = 0"
    and "fst (cpu_op_available (example_world\<lparr>probe_status := 0\<rparr>)) = 1"
    using s by (simp_all add: z [THEN conjunct1] z [THEN conjunct2, THEN conjunct2, THEN conjunct1])
  moreover have "fst (cpu_opv absent_world [] 0 0 {CPU_OP_NR_FLAG}) = - 1"
    and "fst (cpu_op_available absent_world) = 0"
    using s by (simp_all add: q [THEN conjunct1] q [THEN conjunct2, THEN conjunct2, THEN conjunct1])
  ultimately show ?thesis
    by simp
qed

section \<open>The CPU locator\<close>

text \<open>
  C9. When \<open>sched_getcpu()\<close> fails (a negative result), \<open>cpu_op_get_current_cpu\<close> does not
  return: the process aborts. Whatever it returns is the result of the query and is not
  negative.
\<close>

theorem current_cpu_never_negative:
  "(sched_getcpu w < 0 \<longrightarrow> cpu_op_get_current_cpu w = Inl SIGABRT)
   \<and> (\<forall>c. cpu_op_get_current_cpu w = Inr c \<longrightarrow> 0 \<le> c \<and> c = sched_getcpu w)"
  by (auto simp: cpu_op_get_current_cpu_def Let_def)

text \<open>C9 (witness): a failing query aborts; on the example state CPU 0 is returned.\<close>

theorem current_cpu_never_negative_witness:
  "sched_getcpu no_cpu_world < 0 \<and> cpu_op_get_current_cpu no_cpu_world = Inl SIGABRT
   \<and> cpu_op_get_current_cpu example_world = Inr 0 \<and> (0::int) \<le> 0"
proof -
  have "sched_getcpu no_cpu_world < 0"
    by (simp add: no_cpu_world_def)
  moreover have "cpu_op_get_current_cpu example_world = Inr 0"
    by (simp add: cpu_op_get_current_cpu_def example_world_def)
  ultimately show ?thesis
    using current_cpu_never_negative [of no_cpu_world]
      current_cpu_never_negative [of example_world]
    by simp
qed

section \<open>Vectors beyond the maximum length\<close>

text \<open>
  C4 (as amended). \<open>cpu_opv\<close> has no check of its own and issues the request for every
  vector. When the count exceeds the maximum of a present substrate, it is the substrate
  that rejects the request with ConfigurationError: \<open>cpu_opv\<close> returns the negative status,
  no operation of the vector is executed and memory is unchanged.
\<close>

theorem cpu_opv_long_vector:
  assumes "available w" and "int (vec_len_max w) < cpuopcnt"
  shows "cpu_opv w opv cpuopcnt cpu flags =
           (- 1, w\<lparr>dispatched := dispatched w @
              [(\<lparr>req_opv = opv, req_cnt = cpuopcnt, req_cpu = cpu, req_flags = flags\<rparr>,
                ConfigurationError)]\<rparr>)"
  using assms by (simp add: cpu_opv_def substrate_dispatch_def raw_status_def Let_def)

text \<open>C4 (witness): 17 operations where the maximum is 16.\<close>

theorem cpu_opv_long_vector_witness:
  "cpu_opv example_world (replicate 17 example_op) 17 0 {} =
           (- 1, example_world\<lparr>dispatched := dispatched example_world @
              [(\<lparr>req_opv = replicate 17 example_op, req_cnt = 17, req_cpu = 0, req_flags = {}\<rparr>,
                ConfigurationError)]\<rparr>)"
proof -
  have "available example_world" "int (vec_len_max example_world) < 17"
    by (simp_all add: example_world_def available_def)
  then show ?thesis
    by (rule cpu_opv_long_vector)
qed

text \<open>
  C4 (counterexample to the claim as stated): for the same vector, one beyond the maximum,
  the request is issued to the substrate all the same.
\<close>

theorem cpu_opv_long_vector_counterexample:
  "int (vec_len_max example_world) < 17
   \<and> dispatched example_world = []
   \<and> map fst (dispatched (snd (cpu_opv example_world (replicate 17 example_op) 17 0 {}))) =
       [\<lparr>req_opv = replicate 17 example_op, req_cnt = 17, req_cpu = 0, req_flags = {}\<rparr>]"
  by (simp add: example_world_def cpu_opv_def Let_def split: prod.splits)

section \<open>The retry coordinator\<close>

text \<open>
  C5. When the first read of the watched location gives the sentinel \<open>expectnot\<close>,
  \<open>cpu_op_cmpnev_storeoffp_load\<close> returns 1 at once and the state is as it was: no request
  has been issued and nothing has been written.
\<close>

theorem sentinel_returns_at_once:
  assumes "read_intptr (mem w) v = Some expectnot"
  shows "cpu_op_cmpnev_storeoffp_load w v expectnot voffp load cpu = (Inr 1, w)"
  using assms by (simp add: cpu_op_cmpnev_storeoffp_load.simps)

text \<open>C5 (witness): the empty list.\<close>

theorem sentinel_returns_at_once_witness:
  "read_intptr (mem empty_list_world) 0x10 = Some 0
   \<and> cpu_op_cmpnev_storeoffp_load empty_list_world 0x10 0 0 0x30 0 = (Inr 1, empty_list_world)"
proof -
  have h: "read_intptr (mem empty_list_world) 0x10 = Some 0"
    by code_simp
  from sentinel_returns_at_once [OF h] h show ?thesis
    by simp
qed

text \<open>
  C6. The requests of a run are those of its iterations, one each, in order. Iteration
  \<open>j\<close> reads the watched location in the memory left by \<open>j\<close> steps of the other agents; the
  value \<open>x\<close> it reads is not the sentinel, and request \<open>j\<close> is the request of section 4.4 for
  that very value and the candidate address \<open>x + voffp\<close>: Compare(v == x), then
  Copy(v := *(x + voffp)), with the source of the copy marked as allowed to fault and no
  other operand. Every request but the last ended in ComparisonMismatch, which is why the
  loop went round. And an iteration submits nothing only if it reads the sentinel (or its
  read faults): this holds of the iteration after the last request when that request ended
  in ComparisonMismatch, and of the first iteration when there is no request at all.
\<close>

theorem retry_vector_shape:
  "\<exists>es. dispatched (snd (cpu_op_cmpnev_storeoffp_load w v expectnot voffp load cpu))
            = dispatched w @ es
     \<and> (\<forall>j < length es. \<exists>x. read_intptr (memory_after j w) v = Some x \<and> x \<noteq> expectnot
            \<and> fst (es ! j) = retry_request v x (x + voffp) cpu)
     \<and> (\<forall>j. Suc j < length es \<longrightarrow> snd (es ! j) = ComparisonMismatch)
     \<and> (es = [] \<or> snd (last es) = ComparisonMismatch \<longrightarrow>
          read_intptr (memory_after (length es) w) v = None
          \<or> read_intptr (memory_after (length es) w) v = Some expectnot)"
proof -
  obtain res w' where run: "cpu_op_cmpnev_storeoffp_load w v expectnot voffp load cpu = (res, w')"
    by force
  from coordinator_trace [OF run] show ?thesis
    unfolding run by simp
qed

text \<open>C6 (witness): a run of two iterations. The first reads \<open>0x20\<close> and compares with \<open>0x20\<close>;
  another agent then replaces the head, and the second reads \<open>0x50\<close> and compares with \<open>0x50\<close>.\<close>

theorem retry_vector_shape_witness:
  "length (dispatched (snd (cpu_op_cmpnev_storeoffp_load contended_world 0x10 0 0 0x30 0))) = 2
   \<and> read_intptr (memory_after 0 contended_world) 0x10 = Some 0x20
   \<and> fst (dispatched (snd (cpu_op_cmpnev_storeoffp_load contended_world 0x10 0 0 0x30 0)) ! 0)
       = retry_request 0x10 0x20 0x20 0
   \<and> read_intptr (memory_after 1 contended_world) 0x10 = Some 0x50
   \<and> fst (dispatched (snd (cpu_op_cmpnev_storeoffp_load contended_world 0x10 0 0 0x30 0)) ! 1)
       = retry_request 0x10 0x50 0x50 0"
proof -
  let ?log = "dispatched (snd (cpu_op_cmpnev_storeoffp_load contended_world 0x10 0 0 0x30 0))"
  have n: "length ?log = 2"
    by code_simp
  have m0: "read_intptr (memory_after 0 contended_world) 0x10 = Some 0x20"
    by code_simp
  have m1: "read_intptr (memory_after 1 contended_world) 0x10 = Some 0x50"
    by code_simp
  have e: "dispatched contended_world = []"
    by (simp add: contended_world_def pop_world_def example_world_def)
  from retry_vector_shape
    [where w = contended_world and v = "0x10" and expectnot = 0 and voffp = 0
      and load = "0x30" and cpu = 0]
  obtain es where es: "?log = dispatched contended_world @ es"
    "\<forall>j < length es. \<exists>x. read_intptr (memory_after j contended_world) 0x10 = Some x
        \<and> x \<noteq> 0 \<and> fst (es ! j) = retry_request 0x10 x (x + 0) 0"
    by blast
  from es(1) e have l: "?log = es" by simp
  with n have "0 < length es" "1 < length es" by simp_all
  with es(2) m0 m1 have "fst (es ! 0) = retry_request 0x10 0x20 0x20 0"
    and "fst (es ! 1) = retry_request 0x10 0x50 0x50 0"
    by fastforce+
  with n m0 m1 l show ?thesis by simp
qed

text \<open>
  C3 (as amended). Whenever a run has issued a request and the last one ended in a
  recoverable fault, the fault is on the source of the copy (operation 1), the function
  returns \<open>-1\<close>, and neither the function nor its vectors have written anything: memory has
  changed by the other agents' steps only. The value read from the watched location is
  not stored through \<open>load\<close>.
\<close>

theorem fault_return_carries_nothing:
  assumes "length (dispatched w)
             < length (dispatched (snd (cpu_op_cmpnev_storeoffp_load w v expectnot voffp load cpu)))"
    and "snd (last (dispatched (snd (cpu_op_cmpnev_storeoffp_load w v expectnot voffp load cpu))))
           = RecoverableFault i rl"
  shows "fst (cpu_op_cmpnev_storeoffp_load w v expectnot voffp load cpu) = Inr (- 1)
       \<and> i = 1 \<and> rl = Role_src
       \<and> only_agents w (snd (cpu_op_cmpnev_storeoffp_load w v expectnot voffp load cpu))"
proof -
  obtain res w' where run: "cpu_op_cmpnev_storeoffp_load w v expectnot voffp load cpu = (res, w')"
    by force
  from coordinator_log [OF run] obtain es
    where es: "dispatched w' = dispatched w @ es"
      "\<forall>e \<in> set es. \<forall>j q. snd e = RecoverableFault j q \<longrightarrow> j = 1 \<and> q = Role_src"
    by blast
  from assms(1) es(1) have ne: "es \<noteq> []"
    by (simp add: run)
  then have l: "last (dispatched w') = last es"
    using es(1) by simp
  with assms(2) have f: "snd (last es) = RecoverableFault i rl"
    by (simp add: run)
  then have "raw_result (snd (last es)) < 0"
    by simp
  from coordinator_fault_return [OF run es(1) ne this] have r: "res = Inr (- 1)" .
  have "last es \<in> set es" using ne by simp
  with es(2) f have "i = 1 \<and> rl = Role_src" by blast
  moreover have "only_agents w w'"
    using coordinator_frame [OF run] r by simp
  ultimately show ?thesis
    using r by (simp add: run)
qed


text \<open>C3 (witness): a first attempt that loses against another agent, then the fault.\<close>

theorem fault_return_carries_nothing_witness:
  "length (dispatched contended_world)
     < length (dispatched (snd (cpu_op_cmpnev_storeoffp_load contended_world 0x10 0 0 0x30 0)))
   \<and> snd (last (dispatched (snd (cpu_op_cmpnev_storeoffp_load contended_world 0x10 0 0 0x30 0))))
        = RecoverableFault 1 Role_src
   \<and> fst (cpu_op_cmpnev_storeoffp_load contended_world 0x10 0 0 0x30 0) = Inr (- 1)
   \<and> only_agents contended_world (snd (cpu_op_cmpnev_storeoffp_load contended_world 0x10 0 0 0x30 0))"
proof -
  have h1: "length (dispatched contended_world)
     < length (dispatched (snd (cpu_op_cmpnev_storeoffp_load contended_world 0x10 0 0 0x30 0)))"
    by code_simp
  have h2: "snd (last (dispatched
      (snd (cpu_op_cmpnev_storeoffp_load contended_world 0x10 0 0 0x30 0))))
        = RecoverableFault 1 Role_src"
    by code_simp
  from fault_return_carries_nothing [OF h1 h2] h1 h2 show ?thesis
    by simp
qed

text \<open>
  C3 (counterexample to the claim as stated): the head holds \<open>0x60\<close>, the copy faults on its
  source and \<open>-1\<close> is returned, but the word at \<open>load\<close> still holds 0, not \<open>0x60\<close>.
\<close>

theorem fault_return_counterexample:
  "read_intptr (mem dangling_world) 0x10 = Some 0x60
   \<and> fst (cpu_op_cmpnev_storeoffp_load dangling_world 0x10 0 0 0x30 0) = Inr (- 1)
   \<and> map snd (dispatched (snd (cpu_op_cmpnev_storeoffp_load dangling_world 0x10 0 0 0x30 0)))
        = [RecoverableFault 1 Role_src]
   \<and> read_intptr (mem (snd (cpu_op_cmpnev_storeoffp_load dangling_world 0x10 0 0 0x30 0))) 0x30
        = Some 0
   \<and> read_intptr (mem (snd (cpu_op_cmpnev_storeoffp_load dangling_world 0x10 0 0 0x30 0))) 0x30
        \<noteq> Some 0x60"
  by code_simp

text \<open>
  C10. The function returns 0, 1 or \<open>-1\<close> (unless a plain access of its own faults). When
  it returns 1 or \<open>-1\<close>, memory has changed by the other agents' steps only: with no other
  agent running it is exactly as before, the word at \<open>load\<close> included. When it returns 0,
  the last vector has succeeded and the word at \<open>load\<close> holds the value that vector compared
  the watched location with, which is the value the loop had read.
\<close>

theorem load_written_only_on_success:
  "case cpu_op_cmpnev_storeoffp_load w v expectnot voffp load cpu of
     (res, w') \<Rightarrow>
       (res = Inl SIGSEGV \<or> res = Inr 0 \<or> res = Inr 1 \<or> res = Inr (- 1))
       \<and> (res = Inr 1 \<or> res = Inr (- 1) \<longrightarrow>
            only_agents w w' \<and> (agents w = [] \<longrightarrow> mem w' = mem w))
       \<and> (res = Inr 0 \<longrightarrow>
            (\<exists>x. last (dispatched w') = (retry_request v x (x + voffp) cpu, Success)
               \<and> read_intptr (mem w') load = Some x))"
proof -
  obtain res w' where run: "cpu_op_cmpnev_storeoffp_load w v expectnot voffp load cpu = (res, w')"
    by force
  have "res = Inr 0 \<longrightarrow>
      (\<exists>x. last (dispatched w') = (retry_request v x (x + voffp) cpu, Success)
         \<and> read_intptr (mem w') load = Some x)"
    using coordinator_success [of w v expectnot voffp load cpu w'] run by simp
  with coordinator_frame [OF run] only_agents_quiet [of w w'] show ?thesis
    unfolding run by auto
qed

text \<open>C10 (witness): the fault return and the sentinel return, with no other agent, leave
  memory as it was; a successful pop leaves the old head in \<open>load\<close>.\<close>

theorem load_written_only_on_success_witness:
  "fst (cpu_op_cmpnev_storeoffp_load dangling_world 0x10 0 0 0x30 0) = Inr (- 1)
   \<and> mem (snd (cpu_op_cmpnev_storeoffp_load dangling_world 0x10 0 0 0x30 0)) = mem dangling_world
   \<and> fst (cpu_op_cmpnev_storeoffp_load empty_list_world 0x10 0 0 0x30 0) = Inr 1
   \<and> mem (snd (cpu_op_cmpnev_storeoffp_load empty_list_world 0x10 0 0 0x30 0)) = mem empty_list_world
   \<and> fst (cpu_op_cmpnev_storeoffp_load pop_world 0x10 0 0 0x30 0) = Inr 0
   \<and> read_intptr (mem (snd (cpu_op_cmpnev_storeoffp_load pop_world 0x10 0 0 0x30 0))) 0x30
        = Some 0x20"
proof -
  have r3: "fst (cpu_op_cmpnev_storeoffp_load pop_world 0x10 0 0 0x30 0) = Inr 0
   \<and> read_intptr (mem (snd (cpu_op_cmpnev_storeoffp_load pop_world 0x10 0 0 0x30 0))) 0x30
        = Some 0x20"
    by code_simp
  have r1: "fst (cpu_op_cmpnev_storeoffp_load dangling_world 0x10 0 0 0x30 0) = Inr (- 1)"
    by code_simp
  have r2: "fst (cpu_op_cmpnev_storeoffp_load empty_list_world 0x10 0 0 0x30 0) = Inr 1"
    by code_simp
  have q: "agents dangling_world = []" "agents empty_list_world = []"
    by (simp_all add: dangling_world_def empty_list_world_def example_world_def)
  from load_written_only_on_success
      [where w = dangling_world and v = "0x10" and expectnot = 0 and voffp = 0
        and load = "0x30" and cpu = 0]
    load_written_only_on_success
      [where w = empty_list_world and v = "0x10" and expectnot = 0 and voffp = 0
        and load = "0x30" and cpu = 0] r1 r2 r3 q
  show ?thesis
    by (simp add: case_prod_beta)
qed

end
